theory Spec2Isabelle
  imports Complex_Main "HOL-Library.AList"
begin

section \<open>The cellular connection monitor (monitor-cellular.py)\<close>

text \<open>
  A shallow embedding of class \<open>CellularMonitor\<close>. The object \<open>self\<close> is a record
  that every method takes and returns. What the methods read from the outside world (the
  clock, the result of the ping subprocess, the signal strength, a keyboard interrupt) is
  an explicit input.

  \<^item> A \<open>datetime\<close> has microsecond resolution and is modelled by the integer number of
    microseconds since the epoch; \<open>timedelta.total_seconds()\<close> divides the microseconds by
    \<open>10^6\<close>. The clock is \<open>datetime.now()\<close>, the local wall clock: nothing makes its
    readings increase. The range of \<open>datetime\<close> (the years 1 to 9999) is not modelled.
  \<^item> Python's \<open>float\<close> values (latencies, durations, rates) are modelled by rationals:
    the arithmetic of the source is kept, its rounding is not.
  \<^item> Python's unbounded \<open>int\<close> counters are \<open>int\<close>.
  \<^item> What \<open>self.log\<close> and \<open>print\<close> write is a list of lines kept in the field
    \<open>stdout\<close>; a line carries the values the source formats into it (the timestamp and
    the \<open>.1f\<close> formatting are left out).
\<close>

subsection \<open>Data\<close>

type_synonym datetime = int

definition total_seconds :: "int \<Rightarrow> rat" where
  "total_seconds delta = of_int delta / 1000000"

definition minutes :: "int \<Rightarrow> int" where
  \<comment> \<open>\<open>timedelta(minutes=n)\<close>, in microseconds\<close>
  "minutes n = n * 60000000"

text \<open>
  \<open>ping_host\<close> returns a triple \<open>(success, rtt, error)\<close>; its return statements are
  \<open>(True, rtt, None)\<close> and \<open>(False, None, error)\<close> only, which are the two constructors.
\<close>

datatype probe_result = Success rat | Failure string

text \<open>One constructor for every \<open>self.log\<close> and \<open>print\<close> call of the loop and the reports.\<close>

datatype line =
    Blank
  | Rule
  | Duration_exceeded
  | Interrupted_by_user
  | Recovered rat
  | Ping_ok int rat
  | Ping_loss int string string
  | Still_down rat int string string
  | Stats int int rat "(rat \<times> rat \<times> rat) option" "rat option"
  | Final_statistics
  | Total_pings int
  | Successful int
  | Failed int
  | Success_rate rat
  | Loss_rate rat
  | Total_time rat
  | Rtt rat rat rat
  | Total_downtime rat
  | Max_downtime_episode rat
  | Cumulative_losses int
  | Failure_breakdown
  | Breakdown_item string int

record cellular_monitor =
  host :: string
  interval :: int
  timeout :: int
  interface :: string
  duration :: int
  start_time :: "datetime option"
  end_time :: "datetime option"
  ping_count :: int
  success_count :: int
  failure_count :: int
  downtime_start :: "datetime option"
  downtime_duration :: rat
  max_downtime :: rat
  current_downtime :: rat
  recent_pings :: "rat list"
  recent_failures :: "string list"
  stdout :: "line list"

subsection \<open>\<open>collections.deque(maxlen=100)\<close>\<close>

text \<open>
  \<open>deque.append\<close> on a bounded deque adds the item on the right and, when the deque is
  then longer than \<open>maxlen\<close>, removes one item on the left.
\<close>

definition maxlen :: nat where
  "maxlen = 100"

definition deque_append :: "'a list \<Rightarrow> 'a \<Rightarrow> 'a list" where
  "deque_append d x = (let d' = d @ [x] in if length d' > maxlen then tl d' else d')"

subsection \<open>\<open>__init__\<close> and \<open>log\<close>\<close>

text \<open>The method \<open>log\<close> is \<open>log_line\<close> here: \<open>log\<close> is the logarithm of HOL.\<close>

definition init :: "string \<Rightarrow> int \<Rightarrow> int \<Rightarrow> string \<Rightarrow> int \<Rightarrow> cellular_monitor" where
  "init h i t iface d =
     \<lparr> host = h, interval = i, timeout = t, interface = iface, duration = d,
       start_time = None, end_time = None,
       ping_count = 0, success_count = 0, failure_count = 0,
       downtime_start = None, downtime_duration = 0, max_downtime = 0,
       current_downtime = 0,
       recent_pings = [], recent_failures = [], stdout = [] \<rparr>"

definition log_line :: "line \<Rightarrow> cellular_monitor \<Rightarrow> cellular_monitor" where
  "log_line l m = m\<lparr>stdout := stdout m @ [l]\<rparr>"

subsection \<open>\<open>print_stats\<close>\<close>

definition rtt_summary :: "rat list \<Rightarrow> (rat \<times> rat \<times> rat) option" where
  \<comment> \<open>\<open>sum(d) / len(d)\<close>, \<open>min(d)\<close>, \<open>max(d)\<close>, computed only \<open>if self.recent_pings\<close>\<close>
  "rtt_summary d =
     (case d of
        [] \<Rightarrow> None
      | x # xs \<Rightarrow> Some (sum_list d / of_nat (length d), fold min xs x, fold max xs x))"

definition rate :: "int \<Rightarrow> int \<Rightarrow> rat" where
  \<comment> \<open>\<open>(count / self.ping_count * 100) if self.ping_count > 0 else 0\<close>\<close>
  "rate count n = (if n > 0 then of_int count / of_int n * 100 else 0)"

definition print_stats :: "cellular_monitor \<Rightarrow> cellular_monitor" where
  "print_stats m =
     (let success_rate = rate (success_count m) (ping_count m)
      in log_line (Stats (success_count m) (ping_count m) success_rate
                (rtt_summary (recent_pings m))
                (if downtime_start m \<noteq> None then Some (current_downtime m) else None)) m)"

subsection \<open>One cycle of the loop of \<open>monitor\<close>\<close>

text \<open>
  The branch taken when \<open>ping_host\<close> reported success. \<open>now\<close> is the clock reading of
  the recovery.
\<close>

definition on_success :: "rat \<Rightarrow> datetime \<Rightarrow> cellular_monitor \<Rightarrow> cellular_monitor" where
  "on_success rtt now m =
     (let m1 = m\<lparr>success_count := success_count m + 1,
                 recent_pings := deque_append (recent_pings m) rtt\<rparr>;
          m2 = (case downtime_start m1 of
                  None \<Rightarrow> m1
                | Some t0 \<Rightarrow>
                    let downtime = total_seconds (now - t0);
                        m' = m1\<lparr>downtime_duration := downtime_duration m1 + downtime\<rparr>;
                        m'' = (if downtime > max_downtime m' then m'\<lparr>max_downtime := downtime\<rparr>
                               else m')
                    in (log_line (Recovered downtime) m'')
                         \<lparr>downtime_start := None, current_downtime := 0\<rparr>)
      in log_line (Ping_ok (ping_count m2) rtt) m2)"

text \<open>
  The branch taken when \<open>ping_host\<close> reported failure, in two halves: up to the call of
  \<open>get_signal_strength\<close>, and after it. \<open>now\<close> is the clock reading of the downtime
  tracking.
\<close>

definition count_failure :: "string \<Rightarrow> cellular_monitor \<Rightarrow> cellular_monitor" where
  "count_failure error m =
     m\<lparr>failure_count := failure_count m + 1,
       recent_failures := deque_append (recent_failures m) error\<rparr>"

definition track_downtime :: "string \<Rightarrow> string \<Rightarrow> datetime \<Rightarrow> cellular_monitor \<Rightarrow> cellular_monitor" where
  "track_downtime error signal now m =
     (case downtime_start m of
        None \<Rightarrow> log_line (Ping_loss (failure_count m) error signal) (m\<lparr>downtime_start := Some now\<rparr>)
      | Some t0 \<Rightarrow>
          let m' = m\<lparr>current_downtime := total_seconds (now - t0)\<rparr>
          in log_line (Still_down (current_downtime m') (failure_count m') signal error) m')"

definition on_failure :: "string \<Rightarrow> string \<Rightarrow> datetime \<Rightarrow> cellular_monitor \<Rightarrow> cellular_monitor" where
  "on_failure error signal now m = track_downtime error signal now (count_failure error m)"

definition periodic_stats :: "cellular_monitor \<Rightarrow> cellular_monitor" where
  "periodic_stats m = (if ping_count m mod 10 = 0 then print_stats m else m)"

definition cycle :: "probe_result \<Rightarrow> string \<Rightarrow> datetime \<Rightarrow> cellular_monitor \<Rightarrow> cellular_monitor" where
  "cycle r signal now m =
     (let m1 = m\<lparr>ping_count := ping_count m + 1\<rparr>
      in periodic_stats
           (case r of
              Success rtt \<Rightarrow> on_success rtt now m1
            | Failure error \<Rightarrow> on_failure error signal now m1))"

subsection \<open>The loop\<close>

text \<open>
  One event for every pass through the body of \<open>while True\<close>. \<open>Cycle t r sig now\<close> is a
  pass that runs to the end of \<open>time.sleep\<close>: \<open>t\<close> is the clock read by the duration
  check, \<open>r\<close> what \<open>ping_host\<close> returned, \<open>sig\<close> what \<open>get_signal_strength\<close> returned
  (called on a failure only) and \<open>now\<close> the clock read by the downtime accounting. The
  other events are a \<open>KeyboardInterrupt\<close> raised inside one of the blocking calls of the
  body: in \<open>ping_host\<close>, in \<open>get_signal_strength\<close> (after \<open>ping_host\<close> returned the
  error given), or in \<open>time.sleep\<close> of the pass before.
\<close>

datatype event =
    Cycle datetime probe_result string datetime
  | Interrupt_in_probe datetime
  | Interrupt_in_signal datetime string
  | Interrupt_in_sleep

datatype stop = Expired | Interrupted

definition expired :: "cellular_monitor \<Rightarrow> datetime \<Rightarrow> bool" where
  \<comment> \<open>\<open>self.end_time and datetime.now() >= self.end_time\<close>\<close>
  "expired m t = (case end_time m of None \<Rightarrow> False | Some e \<Rightarrow> t \<ge> e)"

text \<open>
  The result \<open>None\<close> is a loop that has consumed every event and is still running.
\<close>

fun loop :: "event list \<Rightarrow> cellular_monitor \<Rightarrow> stop option \<times> cellular_monitor" where
  "loop [] m = (None, m)"
| "loop (Interrupt_in_sleep # es) m = (Some Interrupted, m)"
| "loop (Interrupt_in_probe t # es) m =
     (if expired m t then (Some Expired, log_line Duration_exceeded m)
      else (Some Interrupted, m\<lparr>ping_count := ping_count m + 1\<rparr>))"
| "loop (Interrupt_in_signal t error # es) m =
     (if expired m t then (Some Expired, log_line Duration_exceeded m)
      else (Some Interrupted, count_failure error (m\<lparr>ping_count := ping_count m + 1\<rparr>)))"
| "loop (Cycle t r signal now # es) m =
     (if expired m t then (Some Expired, log_line Duration_exceeded m)
      else loop es (cycle r signal now m))"

subsection \<open>\<open>print_final_stats\<close>\<close>

text \<open>
  The dictionary \<open>failure_types\<close> is an association list in insertion order, as a Python
  dictionary iterates: \<open>AList.update\<close> overwrites the value of a key that is present, in
  place, and appends a new key at the end.
\<close>

definition dict_get :: "('k \<times> 'v) list \<Rightarrow> 'k \<Rightarrow> 'v \<Rightarrow> 'v" where
  "dict_get d k dflt = (case map_of d k of None \<Rightarrow> dflt | Some v \<Rightarrow> v)"

definition tally :: "(string \<times> int) list \<Rightarrow> string \<Rightarrow> (string \<times> int) list" where
  \<comment> \<open>\<open>failure_types[failure] = failure_types.get(failure, 0) + 1\<close>\<close>
  "tally failure_types failure =
     AList.update failure (dict_get failure_types failure 0 + 1) failure_types"

definition count_failures :: "string list \<Rightarrow> (string \<times> int) list" where
  \<comment> \<open>\<open>failure_types = {}\<close> and the loop \<open>for failure in self.recent_failures\<close>\<close>
  "count_failures fs = foldl tally [] fs"

text \<open>
  \<open>sorted(xs, key=k, reverse=True)\<close>: the list is reversed, sorted by a stable ascending
  sort and reversed again. The key of the source is \<open>x[1]\<close>, the count.
\<close>

definition sorted_reverse :: "('a \<Rightarrow> 'k::linorder) \<Rightarrow> 'a list \<Rightarrow> 'a list" where
  "sorted_reverse k xs = rev (sort_key k (rev xs))"

definition failure_breakdown :: "string list \<Rightarrow> (string \<times> int) list" where
  "failure_breakdown fs = sorted_reverse snd (count_failures fs)"

definition final_report :: "rat \<Rightarrow> cellular_monitor \<Rightarrow> line list" where
  "final_report elapsed m =
     (let success_rate = rate (success_count m) (ping_count m);
          loss_rate = rate (failure_count m) (ping_count m)
      in [Blank, Rule, Final_statistics, Rule,
          Total_pings (ping_count m), Successful (success_count m), Failed (failure_count m),
          Success_rate success_rate, Loss_rate loss_rate, Total_time elapsed]
         @ (case rtt_summary (recent_pings m) of
              None \<Rightarrow> []
            | Some (avg_rtt, min_rtt, max_rtt) \<Rightarrow> [Rtt avg_rtt min_rtt max_rtt])
         @ (if failure_count m > 0 then
              [Total_downtime (downtime_duration m), Max_downtime_episode (max_downtime m),
               Cumulative_losses (failure_count m)]
              @ (if recent_failures m \<noteq> [] then
                   Failure_breakdown
                     # map (\<lambda>(failure_type, count). Breakdown_item failure_type count)
                         (failure_breakdown (recent_failures m))
                 else [])
            else [])
         @ [Rule])"

text \<open>
  \<open>now\<close> is the clock read for \<open>elapsed\<close>. The result \<open>None\<close> is the \<open>TypeError\<close> of
  \<open>datetime.now() - self.start_time\<close> on an object whose \<open>start_time\<close> is still \<open>None\<close>.
\<close>

definition print_final_stats :: "datetime \<Rightarrow> cellular_monitor \<Rightarrow> cellular_monitor option" where
  "print_final_stats now m =
     (case start_time m of
        None \<Rightarrow> None
      | Some t0 \<Rightarrow> Some (m\<lparr>stdout := stdout m @ final_report (total_seconds (now - t0)) m\<rparr>))"

subsection \<open>\<open>monitor\<close>\<close>

text \<open>
  \<open>t0\<close> is the clock read on entry, \<open>es\<close> the passes of the loop, \<open>tf\<close> the clock read by
  the final report. The start-up banner and \<open>run_diagnostics\<close> write to the terminal only
  and are left out; they run before the \<open>try\<close> statement. The \<open>except\<close> clause logs the
  interrupt, the \<open>finally\<close> clause prints the final report.

  \<open>start\<close> is the two assignments before the banner. A \<open>datetime\<close> ranges over the
  years 1 to 9999 and the addition of the source raises \<open>OverflowError\<close>, before the
  \<open>try\<close> statement, when the end time leaves that range; \<open>start\<close> is the source on the
  durations that keep the end time within it.
\<close>

datatype run = Running cellular_monitor | Returned stop cellular_monitor | Raised_TypeError

definition start :: "datetime \<Rightarrow> cellular_monitor \<Rightarrow> cellular_monitor" where
  "start t0 m =
     (let m0 = m\<lparr>start_time := Some t0\<rparr>
      in if duration m0 \<noteq> 0 then m0\<lparr>end_time := Some (t0 + minutes (duration m0))\<rparr> else m0)"

definition monitor :: "datetime \<Rightarrow> event list \<Rightarrow> datetime \<Rightarrow> cellular_monitor \<Rightarrow> run" where
  "monitor t0 es tf m =
     (case loop es (start t0 m) of
        (None, m1) \<Rightarrow> Running m1
      | (Some s, m1) \<Rightarrow>
          (let m2 = (case s of Interrupted \<Rightarrow> log_line Interrupted_by_user m1 | Expired \<Rightarrow> m1)
           in case print_final_stats tf m2 of
                None \<Rightarrow> Raised_TypeError
              | Some m3 \<Rightarrow> Returned s m3))"

subsection \<open>\<open>ping_host\<close>\<close>

text \<open>
  The string operations of the source on non-empty separators: \<open>sub in s\<close>,
  \<open>s.split(sep)\<close> and \<open>s.strip()\<close>. A character of HOL is a code point below 256; the
  white space of Unicode beyond that is outside the type.
\<close>

definition startswith :: "string \<Rightarrow> string \<Rightarrow> bool" where
  "startswith s pre = (take (length pre) s = pre)"

fun contains :: "string \<Rightarrow> string \<Rightarrow> bool" where
  "contains [] sub = (sub = [])"
| "contains (c # cs) sub = (startswith (c # cs) sub \<or> contains cs sub)"

function split_from :: "string \<Rightarrow> string \<Rightarrow> string \<Rightarrow> string list" where
  "split_from sep acc [] = [rev acc]"
| "split_from sep acc (c # cs) =
     (if sep \<noteq> [] \<and> startswith (c # cs) sep
      then rev acc # split_from sep [] (drop (length sep) (c # cs))
      else split_from sep (c # acc) cs)"
  by pat_completeness auto
termination
  by (relation "measure (\<lambda>(sep, acc, s). length s)") (auto simp: neq_Nil_conv)

definition split :: "string \<Rightarrow> string \<Rightarrow> string list" where
  "split s sep = split_from sep [] s"

definition isspace :: "char \<Rightarrow> bool" where
  \<comment> \<open>\<open>str.isspace\<close> on the code points below 256, which are the characters of HOL\<close>
  "isspace c = (c \<in> set [CHR '' '', CHR 0x09, CHR 0x0A, CHR 0x0B, CHR 0x0C, CHR 0x0D,
                          CHR 0x1C, CHR 0x1D, CHR 0x1E, CHR 0x1F, CHR 0x85, CHR 0xA0])"

definition strip :: "string \<Rightarrow> string" where
  "strip s = rev (dropWhile isspace (rev (dropWhile isspace s)))"

text \<open>
  What one call of \<open>ping_host\<close> finds outside: whether \<open>socket.inet_aton(self.host)\<close>
  accepts the host, what \<open>socket.gethostbyname\<close> gives (\<open>Inl\<close> the text of its
  exception), the two readings of \<open>time.time()\<close> around \<open>subprocess.run\<close>, and what
  \<open>subprocess.run\<close> does: it returns a completed process (return code, standard output,
  standard error), or raises \<open>TimeoutExpired\<close>, or raises another exception (with its
  text).
\<close>

datatype process = Completed int string string | Timeout_expired | Raised string

record ping_env =
  host_is_ip :: bool
  gethostbyname :: "string + string"
  time_before :: rat
  time_after :: rat
  subprocess_run :: process

definition resolve_hostname :: "ping_env \<Rightarrow> bool \<times> string" where
  "resolve_hostname env = (case gethostbyname env of Inr ip \<Rightarrow> (True, ip) | Inl e \<Rightarrow> (False, e))"

text \<open>
  \<open>line.split('time=')[1].split(' ')[0]\<close>; \<open>None\<close> is an \<open>IndexError\<close>.
\<close>

definition rtt_field :: "string \<Rightarrow> string option" where
  "rtt_field l =
     (case split l ''time='' of
        _ # after # _ \<Rightarrow> (case split after '' '' of field # _ \<Rightarrow> Some field | [] \<Rightarrow> None)
      | _ \<Rightarrow> None)"

text \<open>
  The \<open>for\<close> loop over the lines of the output. \<open>float\<close> is Python's built-in conversion
  (\<open>None\<close> is its \<open>ValueError\<close>), a parameter here; the bare \<open>except\<close> goes on with the
  next line.
\<close>

fun extract_rtt :: "(string \<Rightarrow> rat option) \<Rightarrow> string list \<Rightarrow> rat option" where
  "extract_rtt float [] = None"
| "extract_rtt float (l # ls) =
     (if contains l ''time='' then
        (case rtt_field l of
           None \<Rightarrow> extract_rtt float ls
         | Some field \<Rightarrow>
             (case float field of
                Some rtt \<Rightarrow> Some rtt
              | None \<Rightarrow> extract_rtt float ls))
      else extract_rtt float ls)"

definition ping_host :: "(string \<Rightarrow> rat option) \<Rightarrow> ping_env \<Rightarrow> probe_result" where
  "ping_host float env =
     (if \<not> host_is_ip env \<and> \<not> fst (resolve_hostname env)
      then Failure (''DNS resolution failed: '' @ snd (resolve_hostname env))
      else
        (case subprocess_run env of
           Timeout_expired \<Rightarrow> Failure ''Ping timeout''
         | Raised e \<Rightarrow> Failure e
         | Completed returncode out err \<Rightarrow>
             (let elapsed = time_after env - time_before env
              in if returncode = 0 then
                   (case extract_rtt float (split out [CHR 0x0A]) of
                      Some rtt \<Rightarrow> Success rtt
                    | None \<Rightarrow> Success (elapsed * 1000))
                 else Failure (if err \<noteq> [] then strip err else ''Ping failed''))))"

section \<open>The vocabulary of the specification\<close>

text \<open>
  The definitions of this section are not taken from the source: they say, in the words of
  the specification, what the run of a monitor is measured against.
\<close>

text \<open>
  The probe results of the completed cycles of a run, each with the clock reading of its
  downtime accounting: the passes up to the first one that is interrupted or that finds the
  duration exceeded.
\<close>

fun completed_cycles :: "cellular_monitor \<Rightarrow> event list \<Rightarrow> (probe_result \<times> datetime) list" where
  "completed_cycles m [] = []"
| "completed_cycles m (Cycle t r signal now # es) =
     (if expired m t then [] else (r, now) # completed_cycles m es)"
| "completed_cycles m (e # es) = []"

fun failed :: "probe_result \<times> datetime \<Rightarrow> bool" where
  "failed (Failure error, now) = True"
| "failed (Success rtt, now) = False"

text \<open>
  A downtime episode is a maximal contiguous run of failed cycles, from the first failure
  after an up period to the first success after it. A closed episode is the pair of its
  start time and its recovery time.
\<close>

function closed_episodes :: "(probe_result \<times> datetime) list \<Rightarrow> (datetime \<times> datetime) list" where
  "closed_episodes [] = []"
| "closed_episodes ((Success rtt, now) # cs) = closed_episodes cs"
| "closed_episodes ((Failure error, t0) # cs) =
     (case dropWhile failed cs of
        [] \<Rightarrow> []
      | (r, t1) # rest \<Rightarrow> (t0, t1) # closed_episodes rest)"
  by pat_completeness auto
termination
proof (relation "measure length")
  fix error t0 cs r t1 rest x
  assume "dropWhile failed cs = x # rest"
  then have "length (x # rest) \<le> length cs"
    by (metis length_dropWhile_le)
  then show "(rest, (Failure error, t0) # cs) \<in> measure length"
    by simp
qed auto

text \<open>
  The episode that is still open after the last cycle, if there is one: the pair of its
  start time and the time of its latest failed cycle.
\<close>

function open_episode :: "(probe_result \<times> datetime) list \<Rightarrow> (datetime \<times> datetime) option" where
  "open_episode [] = None"
| "open_episode ((Success rtt, now) # cs) = open_episode cs"
| "open_episode ((Failure error, t0) # cs) =
     (case dropWhile failed cs of
        [] \<Rightarrow> Some (t0, snd (last ((Failure error, t0) # cs)))
      | (r, t1) # rest \<Rightarrow> open_episode rest)"
  by pat_completeness auto
termination
proof (relation "measure length")
  fix error t0 cs r t1 rest x
  assume "dropWhile failed cs = x # rest"
  then have "length (x # rest) \<le> length cs"
    by (metis length_dropWhile_le)
  then show "(rest, (Failure error, t0) # cs) \<in> measure length"
    by simp
qed auto

definition episode_duration :: "datetime \<times> datetime \<Rightarrow> rat" where
  \<comment> \<open>recovery time minus start time, in seconds\<close>
  "episode_duration ep = total_seconds (snd ep - fst ep)"

text \<open>
  The reasons of all the failed probes that a run has counted, oldest first. A pass
  interrupted in \<open>get_signal_strength\<close> has counted its failure already.
\<close>

fun failure_reasons :: "cellular_monitor \<Rightarrow> event list \<Rightarrow> string list" where
  "failure_reasons m [] = []"
| "failure_reasons m (Cycle t r signal now # es) =
     (if expired m t then []
      else (case r of Failure error \<Rightarrow> [error] | Success rtt \<Rightarrow> []) @ failure_reasons m es)"
| "failure_reasons m (Interrupt_in_signal t error # es) =
     (if expired m t then [] else [error])"
| "failure_reasons m (e # es) = []"

fun latencies :: "cellular_monitor \<Rightarrow> event list \<Rightarrow> rat list" where
  "latencies m [] = []"
| "latencies m (Cycle t r signal now # es) =
     (if expired m t then []
      else (case r of Success rtt \<Rightarrow> [rtt] | Failure error \<Rightarrow> []) @ latencies m es)"
| "latencies m (e # es) = []"

definition most_recent :: "nat \<Rightarrow> 'a list \<Rightarrow> 'a list" where
  \<comment> \<open>the last \<open>n\<close> elements, or all of them when there are fewer\<close>
  "most_recent n xs = drop (length xs - n) xs"

definition first_seen :: "'a list \<Rightarrow> 'a list" where
  \<comment> \<open>the distinct elements, in the order of their first occurrence\<close>
  "first_seen xs = rev (remdups (rev xs))"

text \<open>The clock read by the duration check of a pass, when the pass gets that far.\<close>

fun head_clock :: "event \<Rightarrow> datetime option" where
  "head_clock (Cycle t r signal now) = Some t"
| "head_clock (Interrupt_in_probe t) = Some t"
| "head_clock (Interrupt_in_signal t error) = Some t"
| "head_clock Interrupt_in_sleep = None"

definition in_time :: "cellular_monitor \<Rightarrow> event \<Rightarrow> bool" where
  "in_time m e = (case head_clock e of None \<Rightarrow> False | Some t \<Rightarrow> \<not> expired m t)"

fun interrupted_in_probe :: "event \<Rightarrow> bool" where
  "interrupted_in_probe (Interrupt_in_probe t) = True"
| "interrupted_in_probe e = False"

definition the_breakdown :: "line list \<Rightarrow> line list" where
  \<comment> \<open>the lines of a report that belong to the failure breakdown\<close>
  "the_breakdown ls =
     filter (\<lambda>l. case l of Breakdown_item failure_type count \<Rightarrow> True | _ \<Rightarrow> False) ls"

section \<open>Auxiliary definitions\<close>

text \<open>
  A monitor that is down behaves, for the accounting of the cycles to come, like one that is
  up and has a failed cycle at \<open>downtime_start\<close> still to come.
\<close>

definition pending :: "cellular_monitor \<Rightarrow> (probe_result \<times> datetime) list" where
  "pending m = (case downtime_start m of None \<Rightarrow> [] | Some t0 \<Rightarrow> [(Failure [], t0)])"

definition open_downtime :: "(datetime \<times> datetime) option \<Rightarrow> rat" where
  \<comment> \<open>the time from the start of the open episode to its latest failed cycle\<close>
  "open_downtime ep = (case ep of None \<Rightarrow> 0 | Some e \<Rightarrow> episode_duration e)"

definition state_of :: "run \<Rightarrow> cellular_monitor option" where
  \<comment> \<open>the monitor object that a run leaves, if it leaves one\<close>
  "state_of x = (case x of Running m \<Rightarrow> Some m | Returned s m \<Rightarrow> Some m | Raised_TypeError \<Rightarrow> None)"

section \<open>Example runs\<close>

text \<open>Runs on which the theorems below are instantiated.\<close>

definition monitor0 :: cellular_monitor where
  \<comment> \<open>the command line defaults, started at time 0\<close>
  "monitor0 = start 0 (init ''8.8.8.8'' 10 5 ''wwan0'' 0)"

definition short_run :: "event list" where
  \<comment> \<open>the scenario of the specification: two successes, two failures, a recovery\<close>
  "short_run =
     [Cycle 0 (Success 20) ''87%'' 1000000,
      Cycle 10000000 (Success 22) ''87%'' 11000000,
      Cycle 20000000 (Failure ''timeout'') ''12%'' 25000000,
      Cycle 35000000 (Failure ''timeout'') ''12%'' 40000000,
      Cycle 50000000 (Success 25) ''87%'' 51000000]"

definition long_run :: "event list" where
  \<comment> \<open>a hundred successes, then a hundred failures\<close>
  "long_run =
     replicate 100 (Cycle 0 (Success 20) ''87%'' 1)
     @ replicate 100 (Cycle 2 (Failure ''Ping timeout'') ''12%'' 3)"

definition interrupted_run :: "event list" where
  \<comment> \<open>the short run, one more failure, and Ctrl+C while the loop sleeps\<close>
  "interrupted_run =
     short_run @ [Cycle 60000000 (Failure ''Ping timeout'') ''12%'' 61000000,
                  Cycle 70000000 (Failure ''Ping timeout'') ''12%'' 73000000,
                  Interrupt_in_sleep]"

definition no_rtt_output :: string where
  \<comment> \<open>an output of ping that carries no round-trip time that \<open>float\<close> can read\<close>
  "no_rtt_output =
     ''PING 8.8.8.8 (8.8.8.8) from 10.0.0.2 wwan0: 56(84) bytes of data.'' @ [CHR 0x0A]
     @ ''64 bytes from 8.8.8.8: icmp_seq=1 ttl=117 time=n/a'' @ [CHR 0x0A]
     @ ''1 packets transmitted, 1 received, 0% packet loss''"

definition float_14 :: "string \<Rightarrow> rat option" where
  \<comment> \<open>a fragment of \<open>float\<close>: it reads \<open>14.2\<close> and rejects \<open>n/a\<close>\<close>
  "float_14 s = (if s = ''14.2'' then Some (71 / 5) else None)"

definition ping_env0 :: ping_env where
  "ping_env0 =
     \<lparr> host_is_ip = True, gethostbyname = Inr ''8.8.8.8'', time_before = 100,
       time_after = 100 + 3 / 100, subprocess_run = Completed 0 no_rtt_output [] \<rparr>"

definition monitor1 :: cellular_monitor where
  \<comment> \<open>the defaults with \<open>--duration 1\<close>, not yet started\<close>
  "monitor1 = init ''8.8.8.8'' 10 5 ''wwan0'' 1"

definition expiring_run :: "event list" where
  \<comment> \<open>the third pass reads the clock at the end time; the passes after it never happen\<close>
  "expiring_run =
     [Cycle 0 (Success 20) ''87%'' 1000000,
      Cycle 30000000 (Failure ''Ping timeout'') ''12%'' 36000000,
      Cycle 60000000 (Success 21) ''87%'' 61000000,
      Cycle 70000000 (Success 22) ''87%'' 71000000]"

definition lossy_run :: "event list" where
  \<comment> \<open>one timeout, a hundred failed pings, and Ctrl+C while the loop sleeps\<close>
  "lossy_run =
     Cycle 0 (Failure ''Ping timeout'') ''12%'' 1
     # replicate 100 (Cycle 2 (Failure ''Ping failed'') ''12%'' 3)
     @ [Interrupt_in_sleep]"

definition mixed_run :: "event list" where
  \<comment> \<open>failures for three reasons, two of them twice, and Ctrl+C while the loop sleeps\<close>
  "mixed_run =
     [Cycle 0 (Failure ''Ping timeout'') ''12%'' 1,
      Cycle 2 (Failure ''Ping failed'') ''12%'' 3,
      Cycle 4 (Failure ''Ping failed'') ''12%'' 5,
      Cycle 6 (Success 20) ''87%'' 7,
      Cycle 8 (Failure ''DNS resolution failed: timed out'') ''12%'' 9,
      Cycle 10 (Failure ''Ping timeout'') ''12%'' 11,
      Interrupt_in_sleep]"

definition set_back_run :: "event list" where
  \<comment> \<open>a probe fails at 5 s, the wall clock is set back, the next probe succeeds at 2 s\<close>
  "set_back_run =
     [Cycle 4000000 (Failure ''Ping timeout'') ''12%'' 5000000,
      Cycle 1000000 (Success 20) ''87%'' 2000000,
      Interrupt_in_sleep]"

section \<open>Properties\<close>

subsection \<open>What one cycle does to every field\<close>

lemmas cycle_defs = cycle_def periodic_stats_def print_stats_def on_success_def on_failure_def
  track_downtime_def count_failure_def log_line_def Let_def

lemma cycle_ping_count: "ping_count (cycle r sig now m) = ping_count m + 1"
  by (simp add: cycle_defs split: probe_result.splits option.splits)

lemma cycle_success_count:
  "success_count (cycle r sig now m) =
     (case r of Success rtt \<Rightarrow> success_count m + 1 | Failure error \<Rightarrow> success_count m)"
  by (simp add: cycle_defs split: probe_result.splits option.splits)

lemma cycle_failure_count:
  "failure_count (cycle r sig now m) =
     (case r of Success rtt \<Rightarrow> failure_count m | Failure error \<Rightarrow> failure_count m + 1)"
  by (simp add: cycle_defs split: probe_result.splits option.splits)

lemma cycle_recent_pings:
  "recent_pings (cycle r sig now m) =
     (case r of Success rtt \<Rightarrow> deque_append (recent_pings m) rtt
      | Failure error \<Rightarrow> recent_pings m)"
  by (simp add: cycle_defs split: probe_result.splits option.splits)

lemma cycle_recent_failures:
  "recent_failures (cycle r sig now m) =
     (case r of Success rtt \<Rightarrow> recent_failures m
      | Failure error \<Rightarrow> deque_append (recent_failures m) error)"
  by (simp add: cycle_defs split: probe_result.splits option.splits)

lemma cycle_end_time: "end_time (cycle r sig now m) = end_time m"
  by (simp add: cycle_defs split: probe_result.splits option.splits)

lemma cycle_start_time: "start_time (cycle r sig now m) = start_time m"
  by (simp add: cycle_defs split: probe_result.splits option.splits)

lemma cycle_expired: "expired (cycle r sig now m) t = expired m t"
  by (simp add: expired_def cycle_end_time)

lemma cycle_downtime_start:
  "downtime_start (cycle r sig now m) =
     (case r of Success rtt \<Rightarrow> None
      | Failure error \<Rightarrow> (case downtime_start m of None \<Rightarrow> Some now | Some t0 \<Rightarrow> Some t0))"
  by (simp add: cycle_defs split: probe_result.splits option.splits)

lemma cycle_downtime_duration:
  "downtime_duration (cycle r sig now m) =
     (case r of Failure error \<Rightarrow> downtime_duration m
      | Success rtt \<Rightarrow>
          (case downtime_start m of None \<Rightarrow> downtime_duration m
           | Some t0 \<Rightarrow> downtime_duration m + total_seconds (now - t0)))"
  by (simp add: cycle_defs split: probe_result.splits option.splits)

lemma cycle_max_downtime:
  "max_downtime (cycle r sig now m) =
     (case r of Failure error \<Rightarrow> max_downtime m
      | Success rtt \<Rightarrow>
          (case downtime_start m of None \<Rightarrow> max_downtime m
           | Some t0 \<Rightarrow> max (max_downtime m) (total_seconds (now - t0))))"
  by (simp add: cycle_defs max_def split: probe_result.splits option.splits)

lemma cycle_current_downtime:
  "current_downtime (cycle r sig now m) =
     (case r of
        Success rtt \<Rightarrow> (case downtime_start m of None \<Rightarrow> current_downtime m | Some t0 \<Rightarrow> 0)
      | Failure error \<Rightarrow>
          (case downtime_start m of None \<Rightarrow> current_downtime m
           | Some t0 \<Rightarrow> total_seconds (now - t0)))"
  by (simp add: cycle_defs split: probe_result.splits option.splits)

lemmas cycle_fields = cycle_ping_count cycle_success_count cycle_failure_count
  cycle_recent_pings cycle_recent_failures cycle_end_time cycle_start_time cycle_expired
  cycle_downtime_start cycle_downtime_duration cycle_max_downtime cycle_current_downtime

subsection \<open>The start of a run\<close>

lemma start_init_fields:
  "ping_count (start t0 (init h i t f d)) = 0"
  "success_count (start t0 (init h i t f d)) = 0"
  "failure_count (start t0 (init h i t f d)) = 0"
  "recent_pings (start t0 (init h i t f d)) = []"
  "recent_failures (start t0 (init h i t f d)) = []"
  "downtime_start (start t0 (init h i t f d)) = None"
  "downtime_duration (start t0 (init h i t f d)) = 0"
  "max_downtime (start t0 (init h i t f d)) = 0"
  "current_downtime (start t0 (init h i t f d)) = 0"
  "start_time (start t0 (init h i t f d)) = Some t0"
  "stdout (start t0 (init h i t f d)) = []"
  by (simp_all add: start_def init_def Let_def)

subsection \<open>The counters\<close>

lemma loop_balance:
  "\<not> list_ex interrupted_in_probe es \<Longrightarrow>
   success_count m + failure_count m = ping_count m \<Longrightarrow>
   success_count (snd (loop es m)) + failure_count (snd (loop es m)) = ping_count (snd (loop es m))"
proof (induction es m rule: loop.induct)
  case (5 t r signal now es m)
  then show ?case
    by (simp add: log_line_def cycle_fields split: probe_result.splits)
qed (simp_all add: log_line_def count_failure_def)

text \<open>
  C1. Let \<open>m\<close> be the monitor after any passes of the loop none of which is interrupted
  inside \<open>ping_host\<close>, so that every cycle that was begun is complete. Then
  \<open>success_count + failure_count = ping_count\<close>, and one more cycle adds one to
  \<open>ping_count\<close> and one to exactly one of \<open>success_count\<close> and \<open>failure_count\<close>: to
  the first on a success, to the second on a failure.
\<close>

theorem counters_balance:
  assumes "\<not> list_ex interrupted_in_probe es"
    and "m = snd (loop es (start t0 (init h i t f d)))"
  shows "success_count m + failure_count m = ping_count m
    \<and> ping_count (cycle r sig now m) = ping_count m + 1
    \<and> (case r of
          Success rtt \<Rightarrow>
            success_count (cycle r sig now m) = success_count m + 1
            \<and> failure_count (cycle r sig now m) = failure_count m
        | Failure error \<Rightarrow>
            failure_count (cycle r sig now m) = failure_count m + 1
            \<and> success_count (cycle r sig now m) = success_count m)"
  using assms loop_balance [of es "start t0 (init h i t f d)"]
  by (simp add: start_init_fields cycle_fields split: probe_result.splits)

theorem counters_balance_witness:
  "\<not> list_ex interrupted_in_probe
       [Cycle 0 (Success 20) ''87%'' 1, Cycle 2 (Failure ''Ping timeout'') ''87%'' 3]
   \<and> ping_count (snd (loop [Cycle 0 (Success 20) ''87%'' 1,
                             Cycle 2 (Failure ''Ping timeout'') ''87%'' 3]
                        (start 0 (init ''8.8.8.8'' 10 5 ''wwan0'' 0)))) = 2
   \<and> success_count (snd (loop [Cycle 0 (Success 20) ''87%'' 1,
                                Cycle 2 (Failure ''Ping timeout'') ''87%'' 3]
                           (start 0 (init ''8.8.8.8'' 10 5 ''wwan0'' 0))))
     + failure_count (snd (loop [Cycle 0 (Success 20) ''87%'' 1,
                                 Cycle 2 (Failure ''Ping timeout'') ''87%'' 3]
                            (start 0 (init ''8.8.8.8'' 10 5 ''wwan0'' 0))))
     = ping_count (snd (loop [Cycle 0 (Success 20) ''87%'' 1,
                              Cycle 2 (Failure ''Ping timeout'') ''87%'' 3]
                         (start 0 (init ''8.8.8.8'' 10 5 ''wwan0'' 0))))"
  using counters_balance [of "[Cycle 0 (Success 20) ''87%'' 1,
                               Cycle 2 (Failure ''Ping timeout'') ''87%'' 3]"
                             _ 0 "''8.8.8.8''" 10 5 "''wwan0''" 0, OF _ refl]
  by (simp add: expired_def start_def init_def cycle_fields)



subsection \<open>The rolling buffers\<close>

lemma length_most_recent: "length (most_recent n xs) = min (length xs) n"
  by (simp add: most_recent_def)

lemma most_recent_Nil: "most_recent n [] = []"
  by (simp add: most_recent_def)

lemma deque_append_most_recent:
  "deque_append (most_recent maxlen xs) x = most_recent maxlen (xs @ [x])"
proof (cases "length xs < maxlen")
  case True
  then show ?thesis
    by (simp add: deque_append_def most_recent_def Let_def)
next
  case False
  then have "drop (length xs - maxlen) xs \<noteq> []"
    by (simp add: maxlen_def)
  with False show ?thesis
    by (simp add: deque_append_def most_recent_def Let_def Suc_diff_le drop_Suc tl_drop
        flip: drop_tl)
qed

lemma deque_append_full: "length d = maxlen \<Longrightarrow> deque_append d x = tl d @ [x]"
  by (cases d) (simp_all add: deque_append_def maxlen_def)

lemma deque_append_room: "length d < maxlen \<Longrightarrow> deque_append d x = d @ [x]"
  by (simp add: deque_append_def)

lemma completed_cycles_cong: "end_time m' = end_time m \<Longrightarrow> completed_cycles m' es = completed_cycles m es"
  by (induction m es rule: completed_cycles.induct) (simp_all add: expired_def)

lemma failure_reasons_cong: "end_time m' = end_time m \<Longrightarrow> failure_reasons m' es = failure_reasons m es"
  by (induction m es rule: failure_reasons.induct) (simp_all add: expired_def)

lemma latencies_cong: "end_time m' = end_time m \<Longrightarrow> latencies m' es = latencies m es"
  by (induction m es rule: latencies.induct) (simp_all add: expired_def)

lemma loop_recent_failures:
  "recent_failures m = most_recent maxlen xs \<Longrightarrow>
   recent_failures (snd (loop es m)) = most_recent maxlen (xs @ failure_reasons m es)"
proof (induction es m arbitrary: xs rule: loop.induct)
  case (5 t r signal now es m)
  show ?case
  proof (cases r)
    case (Success rtt)
    with 5 show ?thesis
      by (simp add: log_line_def cycle_recent_failures failure_reasons_cong [OF cycle_end_time])
  next
    case (Failure error)
    show ?thesis
    proof (cases "expired m t")
      case True
      with 5 show ?thesis by (simp add: log_line_def)
    next
      case False
      have "recent_failures (cycle r signal now m) = most_recent maxlen (xs @ [error])"
        using 5(2) Failure by (simp add: cycle_recent_failures deque_append_most_recent)
      from 5(1) [OF False this] False Failure show ?thesis
        by (simp add: failure_reasons_cong [OF cycle_end_time])
    qed
  qed
qed (simp_all add: log_line_def count_failure_def deque_append_most_recent)

lemma loop_recent_pings:
  "recent_pings m = most_recent maxlen xs \<Longrightarrow>
   recent_pings (snd (loop es m)) = most_recent maxlen (xs @ latencies m es)"
proof (induction es m arbitrary: xs rule: loop.induct)
  case (5 t r signal now es m)
  show ?case
  proof (cases r)
    case (Failure error)
    with 5 show ?thesis
      by (simp add: log_line_def cycle_recent_pings latencies_cong [OF cycle_end_time])
  next
    case (Success rtt)
    show ?thesis
    proof (cases "expired m t")
      case True
      with 5 show ?thesis by (simp add: log_line_def)
    next
      case False
      have "recent_pings (cycle r signal now m) = most_recent maxlen (xs @ [rtt])"
        using 5(2) Success by (simp add: cycle_recent_pings deque_append_most_recent)
      from 5(1) [OF False this] False Success show ?thesis
        by (simp add: latencies_cong [OF cycle_end_time])
    qed
  qed
qed (simp_all add: log_line_def count_failure_def)

lemma loop_failure_count:
  "failure_count (snd (loop es m)) = failure_count m + int (length (failure_reasons m es))"
proof (induction es m rule: loop.induct)
  case (5 t r signal now es m)
  then show ?case
    by (simp add: log_line_def cycle_failure_count failure_reasons_cong [OF cycle_end_time]
        split: probe_result.splits)
qed (simp_all add: log_line_def count_failure_def)

lemma loop_success_count:
  "success_count (snd (loop es m)) = success_count m + int (length (latencies m es))"
proof (induction es m rule: loop.induct)
  case (5 t r signal now es m)
  then show ?case
    by (simp add: log_line_def cycle_success_count latencies_cong [OF cycle_end_time]
        split: probe_result.splits)
qed (simp_all add: log_line_def count_failure_def)

lemma run_recent_failures:
  "recent_failures (snd (loop es (start t0 (init h i t f d))))
     = most_recent maxlen (failure_reasons (start t0 (init h i t f d)) es)"
  using loop_recent_failures [of "start t0 (init h i t f d)" "[]" es]
  by (simp add: start_init_fields most_recent_Nil)

lemma run_recent_pings:
  "recent_pings (snd (loop es (start t0 (init h i t f d))))
     = most_recent maxlen (latencies (start t0 (init h i t f d)) es)"
  using loop_recent_pings [of "start t0 (init h i t f d)" "[]" es]
  by (simp add: start_init_fields most_recent_Nil)

lemma run_failure_count:
  "failure_count (snd (loop es (start t0 (init h i t f d))))
     = int (length (failure_reasons (start t0 (init h i t f d)) es))"
  by (simp add: loop_failure_count start_init_fields)

lemma run_success_count:
  "success_count (snd (loop es (start t0 (init h i t f d))))
     = int (length (latencies (start t0 (init h i t f d)) es))"
  by (simp add: loop_success_count start_init_fields)

text \<open>
  C9. Let \<open>m\<close> be the monitor after any passes of the loop. The length of
  \<open>recent_pings\<close> is \<open>min(success_count, 100)\<close> and the length of \<open>recent_failures\<close> is
  \<open>min(failure_count, 100)\<close>; and one more cycle appends its latency to \<open>recent_pings\<close>
  and leaves \<open>recent_failures\<close> alone when the probe succeeded, and appends its reason
  to \<open>recent_failures\<close> and leaves \<open>recent_pings\<close> alone when it failed.
\<close>

theorem buffer_lengths:
  assumes "m = snd (loop es (start t0 (init h i t f d)))"
  shows "int (length (recent_pings m)) = min (success_count m) 100
    \<and> int (length (recent_failures m)) = min (failure_count m) 100
    \<and> (case r of
          Success rtt \<Rightarrow>
            recent_pings (cycle r sig now m) = deque_append (recent_pings m) rtt
            \<and> recent_failures (cycle r sig now m) = recent_failures m
        | Failure error \<Rightarrow>
            recent_failures (cycle r sig now m) = deque_append (recent_failures m) error
            \<and> recent_pings (cycle r sig now m) = recent_pings m)"
  unfolding assms
  by (simp add: run_recent_pings run_recent_failures run_failure_count run_success_count
      length_most_recent maxlen_def cycle_recent_pings cycle_recent_failures min_def
      split: probe_result.splits)

theorem buffer_lengths_witness:
  "int (length (recent_pings (snd (loop short_run monitor0))))
     = min (success_count (snd (loop short_run monitor0))) 100
   \<and> int (length (recent_failures (snd (loop short_run monitor0))))
     = min (failure_count (snd (loop short_run monitor0))) 100
   \<and> recent_pings (snd (loop short_run monitor0)) = [20, 22, 25]
   \<and> recent_failures (snd (loop short_run monitor0)) = [''timeout'', ''timeout'']
   \<and> recent_pings (cycle (Success 7) ''87%'' 60000000 (snd (loop short_run monitor0)))
       = [20, 22, 25, 7]"
proof -
  have p: "recent_pings (snd (loop short_run monitor0)) = [20, 22, 25]"
    by code_simp
  have q: "recent_failures (snd (loop short_run monitor0)) = [''timeout'', ''timeout'']"
    by code_simp
  from p q
    buffer_lengths [of "snd (loop short_run monitor0)" short_run 0 "''8.8.8.8''" 10 5 "''wwan0''" 0
      "Success 7" "''87%''" 60000000]
  show ?thesis
    by (simp add: monitor0_def deque_append_def maxlen_def)
qed

text \<open>
  C4. Let \<open>m\<close> be the monitor after any passes of the loop. Neither \<open>recent_pings\<close> nor
  \<open>recent_failures\<close> holds more than 100 entries; and when a buffer holds 100 entries,
  the next append to it (a successful cycle for \<open>recent_pings\<close>, a failed one for
  \<open>recent_failures\<close>) leaves the 99 newest entries, in their order, followed by the new
  one: the oldest entry, and only that one, is gone.
\<close>

theorem buffers_bounded:
  assumes "m = snd (loop es (start t0 (init h i t f d)))"
  shows "length (recent_pings m) \<le> 100 \<and> length (recent_failures m) \<le> 100
    \<and> (length (recent_pings m) = 100 \<longrightarrow>
         recent_pings (cycle (Success rtt) sig now m) = tl (recent_pings m) @ [rtt])
    \<and> (length (recent_failures m) = 100 \<longrightarrow>
         recent_failures (cycle (Failure error) sig now m) = tl (recent_failures m) @ [error])"
  unfolding assms
  by (simp add: run_recent_pings run_recent_failures length_most_recent maxlen_def
      cycle_recent_pings cycle_recent_failures deque_append_full)

theorem buffers_bounded_witness:
  "length (recent_pings (snd (loop long_run monitor0))) = 100
   \<and> length (recent_failures (snd (loop long_run monitor0))) = 100
   \<and> recent_pings (cycle (Success 7) ''87%'' 5 (snd (loop long_run monitor0)))
       = tl (recent_pings (snd (loop long_run monitor0))) @ [7]
   \<and> recent_failures (cycle (Failure ''Ping failed'') ''87%'' 5 (snd (loop long_run monitor0)))
       = tl (recent_failures (snd (loop long_run monitor0))) @ [''Ping failed'']
   \<and> hd (recent_pings (cycle (Success 7) ''87%'' 5 (snd (loop long_run monitor0)))) = 20
   \<and> last (recent_pings (cycle (Success 7) ''87%'' 5 (snd (loop long_run monitor0)))) = 7"
proof -
  have "latencies monitor0 long_run = replicate 100 20"
    by code_simp
  then have p: "recent_pings (snd (loop long_run monitor0)) = replicate 100 20"
    unfolding monitor0_def by (simp add: run_recent_pings most_recent_def maxlen_def)
  have "failure_reasons monitor0 long_run = replicate 100 ''Ping timeout''"
    by code_simp
  then have q: "recent_failures (snd (loop long_run monitor0)) = replicate 100 ''Ping timeout''"
    unfolding monitor0_def by (simp add: run_recent_failures most_recent_def maxlen_def)
  have r: "hd (tl (replicate 100 (20::rat)) @ [7]) = 20"
    by code_simp
  from p q r
    buffers_bounded [of "snd (loop long_run monitor0)" long_run 0 "''8.8.8.8''" 10 5 "''wwan0''" 0
      7 "''87%''" 5 "''Ping failed''"]
  show ?thesis
    by (simp add: monitor0_def)
qed



subsection \<open>Downtime episodes\<close>

lemma closed_episodes_pending_Nil: "closed_episodes (pending m) = []"
  by (simp add: pending_def split: option.splits)

lemma open_episode_reason:
  "open_episode ((Failure e, t) # cs) = open_episode ((Failure e', t) # cs)"
  by (cases "dropWhile failed cs") (simp_all del: dropWhile_eq_Nil_conv)

lemma open_episode_skip:
  "cs \<noteq> [] \<Longrightarrow>
   open_episode ((Failure e, t0) # (Failure e', t1) # cs) = open_episode ((Failure e, t0) # cs)"
  by (cases "dropWhile failed cs") (simp_all del: dropWhile_eq_Nil_conv)

lemma loop_downtime_duration:
  "downtime_duration (snd (loop es m))
     = downtime_duration m
       + sum_list (map episode_duration (closed_episodes (pending m @ completed_cycles m es)))"
proof (induction es m rule: loop.induct)
  case (5 t r signal now es m)
  show ?case
  proof (cases "expired m t")
    case True
    then show ?thesis
      by (simp add: log_line_def closed_episodes_pending_Nil)
  next
    case False
    from 5 [OF False] False show ?thesis
      by (cases r; cases "downtime_start m")
        (simp_all add: cycle_downtime_duration cycle_downtime_start pending_def
          completed_cycles_cong [OF cycle_end_time] episode_duration_def)
  qed
qed (simp_all add: log_line_def count_failure_def closed_episodes_pending_Nil)

lemma loop_max_downtime:
  "max_downtime (snd (loop es m))
     = fold max (map episode_duration (closed_episodes (pending m @ completed_cycles m es)))
         (max_downtime m)"
proof (induction es m rule: loop.induct)
  case (5 t r signal now es m)
  show ?case
  proof (cases "expired m t")
    case True
    then show ?thesis
      by (simp add: log_line_def closed_episodes_pending_Nil)
  next
    case False
    from 5 [OF False] False show ?thesis
      by (cases r; cases "downtime_start m")
        (simp_all add: cycle_max_downtime cycle_downtime_start pending_def
          completed_cycles_cong [OF cycle_end_time] episode_duration_def max.commute)
  qed
qed (simp_all add: log_line_def count_failure_def closed_episodes_pending_Nil)

lemma loop_current_downtime:
  "(downtime_start m = None \<longrightarrow> current_downtime m = 0) \<Longrightarrow>
   current_downtime (snd (loop es m))
     = (if completed_cycles m es = [] then current_downtime m
        else open_downtime (open_episode (pending m @ completed_cycles m es)))"
proof (induction es m rule: loop.induct)
  case (5 t r signal now es m)
  show ?case
  proof (cases "expired m t")
    case True
    then show ?thesis
      by (simp add: log_line_def)
  next
    case False
    let ?m = "cycle r signal now m"
    have inv: "downtime_start ?m = None \<longrightarrow> current_downtime ?m = 0"
      using 5(2)
      by (simp add: cycle_downtime_start cycle_current_downtime
          split: probe_result.splits option.splits)
    have cc: "completed_cycles ?m es = completed_cycles m es"
      by (rule completed_cycles_cong [OF cycle_end_time])
    note ih = 5(1) [OF False inv, unfolded cc]
    show ?thesis
    proof (cases "completed_cycles m es = []")
      case True
      with ih False 5(2) show ?thesis
        by (cases r; cases "downtime_start m")
          (simp_all add: cycle_current_downtime pending_def open_downtime_def
            episode_duration_def total_seconds_def)
    next
      case ne: False
      show ?thesis
      proof (cases r)
        case (Success rtt)
        with ih False ne show ?thesis
          by (cases "downtime_start m") (simp_all add: cycle_downtime_start pending_def)
      next
        case (Failure error)
        show ?thesis
        proof (cases "downtime_start m")
          case None
          with ih False ne Failure show ?thesis
            using open_episode_reason [of "[]" now "completed_cycles m es" error]
            by (simp add: cycle_downtime_start pending_def)
        next
          case (Some t0)
          with ih False ne Failure show ?thesis
            using open_episode_skip [OF ne, of "[]" t0 error now]
            by (simp add: cycle_downtime_start pending_def)
        qed
      qed
    qed
  qed
qed (simp_all add: log_line_def count_failure_def)

lemma loop_downtime_start:
  "downtime_start (snd (loop es m))
     = map_option fst (open_episode (pending m @ completed_cycles m es))"
proof (induction es m rule: loop.induct)
  case (5 t r signal now es m)
  show ?case
  proof (cases "expired m t")
    case True
    then show ?thesis
      by (simp add: log_line_def pending_def split: option.splits)
  next
    case False
    have cc: "completed_cycles (cycle r signal now m) es = completed_cycles m es"
      by (rule completed_cycles_cong [OF cycle_end_time])
    note ih = 5 [OF False, unfolded cc]
    show ?thesis
    proof (cases r)
      case (Success rtt)
      with ih False show ?thesis
        by (cases "downtime_start m") (simp_all add: cycle_downtime_start pending_def)
    next
      case (Failure error)
      show ?thesis
      proof (cases "downtime_start m")
        case None
        with ih False Failure show ?thesis
          using open_episode_reason [of "[]" now "completed_cycles m es" error]
          by (simp add: cycle_downtime_start pending_def)
      next
        case (Some t0)
        show ?thesis
        proof (cases "completed_cycles m es = []")
          case True
          with ih False Failure Some show ?thesis
            by (simp add: cycle_downtime_start pending_def)
        next
          case ne: False
          with ih False Failure Some show ?thesis
            using open_episode_skip [OF ne, of "[]" t0 error now]
            by (simp add: cycle_downtime_start pending_def)
        qed
      qed
    qed
  qed
qed (simp_all add: log_line_def count_failure_def pending_def split: option.splits)

lemma loop_down_invariant:
  assumes "downtime_start m = None \<longrightarrow> current_downtime m = 0"
    and "downtime_start (snd (loop es m)) = None"
  shows "current_downtime (snd (loop es m)) = 0"
proof (cases "completed_cycles m es = []")
  case True
  with assms(2) have "downtime_start m = None"
    by (simp add: loop_downtime_start pending_def split: option.splits)
  with assms(1) True show ?thesis
    by (simp add: loop_current_downtime)
next
  case False
  from assms(2) have "open_episode (pending m @ completed_cycles m es) = None"
    by (simp add: loop_downtime_start)
  with assms(1) False show ?thesis
    by (simp add: loop_current_downtime open_downtime_def)
qed

subsection \<open>What a run leaves\<close>

lemma monitor_fields:
  assumes "state_of (monitor t0 es tf m0) = Some m"
  shows "downtime_duration m = downtime_duration (snd (loop es (start t0 m0)))"
    and "max_downtime m = max_downtime (snd (loop es (start t0 m0)))"
    and "current_downtime m = current_downtime (snd (loop es (start t0 m0)))"
    and "downtime_start m = downtime_start (snd (loop es (start t0 m0)))"
  using assms
  by (auto simp: state_of_def monitor_def print_final_stats_def log_line_def Let_def
      split: prod.splits option.splits stop.splits)

lemma pending_start_init: "pending (start t0 (init h i t f d)) = []"
  by (simp add: pending_def start_init_fields)

text \<open>
  C2. Let \<open>m\<close> be the monitor that a run leaves (when \<open>monitor\<close> has returned, or at any
  moment between two passes of the loop), and \<open>cs\<close> the completed cycles of the run.
  Then \<open>downtime_duration\<close> is the sum, over the closed downtime episodes of \<open>cs\<close>, of
  recovery time minus start time. An episode that is still open adds nothing to it: it is
  \<open>downtime_start\<close>, and \<open>current_downtime\<close> is the time from its start to its latest
  failed cycle (0 when no episode is open).
\<close>

theorem cumulative_downtime:
  assumes "m0 = start t0 (init h i t f d)"
    and "state_of (monitor t0 es tf (init h i t f d)) = Some m"
    and "cs = completed_cycles m0 es"
  shows "downtime_duration m = sum_list (map episode_duration (closed_episodes cs))
    \<and> downtime_start m = map_option fst (open_episode cs)
    \<and> current_downtime m = open_downtime (open_episode cs)"
proof -
  have "current_downtime (snd (loop es m0)) = open_downtime (open_episode cs)"
    unfolding assms(1,3)
    by (simp add: loop_current_downtime start_init_fields pending_start_init open_downtime_def)
  then show ?thesis
    using monitor_fields [OF assms(2)] unfolding assms(1,3)
    by (simp add: loop_downtime_duration loop_downtime_start start_init_fields
        pending_start_init)
qed

theorem cumulative_downtime_witness:
  "state_of (monitor 0 interrupted_run 80000000 (init ''8.8.8.8'' 10 5 ''wwan0'' 0)) \<noteq> None
   \<and> closed_episodes (completed_cycles monitor0 interrupted_run) = [(25000000, 51000000)]
   \<and> open_episode (completed_cycles monitor0 interrupted_run) = Some (61000000, 73000000)
   \<and> downtime_duration
        (the (state_of (monitor 0 interrupted_run 80000000 (init ''8.8.8.8'' 10 5 ''wwan0'' 0))))
       = 26
   \<and> downtime_start
        (the (state_of (monitor 0 interrupted_run 80000000 (init ''8.8.8.8'' 10 5 ''wwan0'' 0))))
       = Some 61000000
   \<and> current_downtime
        (the (state_of (monitor 0 interrupted_run 80000000 (init ''8.8.8.8'' 10 5 ''wwan0'' 0))))
       = 12"
proof -
  have a: "state_of (monitor 0 interrupted_run 80000000 (init ''8.8.8.8'' 10 5 ''wwan0'' 0)) \<noteq> None"
    by code_simp
  have b: "closed_episodes (completed_cycles monitor0 interrupted_run) = [(25000000, 51000000)]"
    by code_simp
  have c: "open_episode (completed_cycles monitor0 interrupted_run) = Some (61000000, 73000000)"
    by code_simp
  from a have "state_of (monitor 0 interrupted_run 80000000 (init ''8.8.8.8'' 10 5 ''wwan0'' 0))
      = Some (the (state_of (monitor 0 interrupted_run 80000000 (init ''8.8.8.8'' 10 5 ''wwan0'' 0))))"
    by simp
  from cumulative_downtime [OF monitor0_def this refl] a b c show ?thesis
    by (simp add: episode_duration_def total_seconds_def open_downtime_def)
qed

text \<open>
  C3, as the code has it. Let \<open>m\<close> be the monitor that a run leaves and \<open>ds\<close> the
  durations of the closed downtime episodes of the run. Then \<open>max_downtime\<close> is the
  greatest of 0 and the members of \<open>ds\<close>. So it is 0 when no episode has been closed; it
  is the maximum over \<open>ds\<close> as soon as one closed episode has a duration that is not
  negative; and it is 0 when every closed episode has a negative duration.
\<close>

theorem max_downtime_over_zero_and_episodes:
  assumes "m0 = start t0 (init h i t f d)"
    and "state_of (monitor t0 es tf (init h i t f d)) = Some m"
    and "ds = map episode_duration (closed_episodes (completed_cycles m0 es))"
  shows "max_downtime m = Max (set (0 # ds))
    \<and> (ds = [] \<longrightarrow> max_downtime m = 0)
    \<and> ((\<exists>x \<in> set ds. 0 \<le> x) \<longrightarrow> max_downtime m = Max (set ds))
    \<and> ((\<forall>x \<in> set ds. x < 0) \<longrightarrow> max_downtime m = 0)"
proof -
  have "max_downtime m = fold max ds 0"
    using monitor_fields [OF assms(2)] unfolding assms(1,3)
    by (simp add: loop_max_downtime start_init_fields pending_start_init)
  then have 1: "max_downtime m = Max (set (0 # ds))"
    by (simp only: Max.set_eq_fold)
  have 2: "Max (set (0 # ds)) = Max (set ds)" if "\<exists>x \<in> set ds. 0 \<le> x"
  proof -
    from that obtain x where x: "x \<in> set ds" "0 \<le> x"
      by blast
    then have "x \<le> Max (set ds)"
      by simp
    with x(2) have "0 \<le> Max (set ds)"
      by (rule order_trans)
    moreover from x(1) have "ds \<noteq> []"
      by auto
    ultimately show ?thesis
      by (simp add: max_def)
  qed
  have 3: "Max (set (0 # ds)) = 0" if "\<forall>x \<in> set ds. x < 0"
  proof (cases "ds = []")
    case True
    then show ?thesis by simp
  next
    case False
    then have "Max (set ds) \<in> set ds"
      by (meson List.finite_set Max_in set_empty)
    with that have lt: "Max (set ds) < 0"
      by blast
    from False have "Max (set (0 # ds)) = max 0 (Max (set ds))"
      by simp
    with lt show ?thesis
      by linarith
  qed
  from 1 2 3 show ?thesis
    by auto
qed

theorem max_downtime_over_zero_and_episodes_witness:
  "state_of (monitor 0 interrupted_run 80000000 (init ''8.8.8.8'' 10 5 ''wwan0'' 0)) \<noteq> None
   \<and> map episode_duration (closed_episodes (completed_cycles monitor0 interrupted_run)) = [26]
   \<and> max_downtime
        (the (state_of (monitor 0 interrupted_run 80000000 (init ''8.8.8.8'' 10 5 ''wwan0'' 0))))
       = 26
   \<and> map episode_duration (closed_episodes (completed_cycles monitor0 [])) = []
   \<and> max_downtime (the (state_of (monitor 0 [] 0 (init ''8.8.8.8'' 10 5 ''wwan0'' 0)))) = 0
   \<and> state_of (monitor 0 set_back_run 3000000 (init ''8.8.8.8'' 10 5 ''wwan0'' 0)) \<noteq> None
   \<and> list_all (\<lambda>x. x < 0)
        (map episode_duration (closed_episodes (completed_cycles monitor0 set_back_run)))
   \<and> max_downtime
        (the (state_of (monitor 0 set_back_run 3000000 (init ''8.8.8.8'' 10 5 ''wwan0'' 0))))
       = 0"
proof -
  have a: "state_of (monitor 0 interrupted_run 80000000 (init ''8.8.8.8'' 10 5 ''wwan0'' 0)) \<noteq> None"
    by code_simp
  have b: "map episode_duration (closed_episodes (completed_cycles monitor0 interrupted_run)) = [26]"
    by code_simp
  have c: "state_of (monitor 0 set_back_run 3000000 (init ''8.8.8.8'' 10 5 ''wwan0'' 0)) \<noteq> None"
    by code_simp
  have d: "map episode_duration (closed_episodes (completed_cycles monitor0 set_back_run)) = [- 3]"
    by code_simp
  from a have "state_of (monitor 0 interrupted_run 80000000 (init ''8.8.8.8'' 10 5 ''wwan0'' 0))
      = Some (the (state_of (monitor 0 interrupted_run 80000000 (init ''8.8.8.8'' 10 5 ''wwan0'' 0))))"
    by simp
  moreover have "state_of (monitor 0 [] 0 (init ''8.8.8.8'' 10 5 ''wwan0'' 0))
      = Some (the (state_of (monitor 0 [] 0 (init ''8.8.8.8'' 10 5 ''wwan0'' 0))))"
    by code_simp
  moreover from c have "state_of (monitor 0 set_back_run 3000000 (init ''8.8.8.8'' 10 5 ''wwan0'' 0))
      = Some (the (state_of (monitor 0 set_back_run 3000000 (init ''8.8.8.8'' 10 5 ''wwan0'' 0))))"
    by simp
  ultimately show ?thesis
    using a b c d
      max_downtime_over_zero_and_episodes [OF monitor0_def _ refl, of interrupted_run 80000000]
      max_downtime_over_zero_and_episodes [OF monitor0_def _ refl, of "[]" 0]
      max_downtime_over_zero_and_episodes [OF monitor0_def _ refl, of set_back_run 3000000]
    by simp
qed

text \<open>
  C3, as the specification has it, fails when the wall clock is set back during an
  episode: \<open>datetime.now()\<close> is the local wall clock. Here the one closed episode has the
  duration of -3 seconds, which is the maximum over the closed episodes, and
  \<open>max_downtime\<close> is still 0, since \<open>downtime > self.max_downtime\<close> is false.
\<close>

theorem max_downtime_set_back_counterexample:
  "map episode_duration (closed_episodes (completed_cycles monitor0 set_back_run)) = [- 3]
   \<and> max_downtime
        (the (state_of (monitor 0 set_back_run 3000000 (init ''8.8.8.8'' 10 5 ''wwan0'' 0))))
       = 0
   \<and> max_downtime
        (the (state_of (monitor 0 set_back_run 3000000 (init ''8.8.8.8'' 10 5 ''wwan0'' 0))))
       \<noteq> Max (set (map episode_duration
                       (closed_episodes (completed_cycles monitor0 set_back_run))))"
proof -
  have a: "map episode_duration (closed_episodes (completed_cycles monitor0 set_back_run)) = [- 3]"
    by code_simp
  have b: "max_downtime
        (the (state_of (monitor 0 set_back_run 3000000 (init ''8.8.8.8'' 10 5 ''wwan0'' 0))))
       = 0"
    by code_simp
  from a b show ?thesis
    by simp
qed

text \<open>
  C10. Let \<open>m\<close> be the monitor after any passes of the loop. When no episode is open,
  \<open>current_downtime\<close> is 0, and it is still 0 after a failed cycle, which opens an episode
  at its clock reading; when that cycle prints the periodic report, the downtime shown is
  0. When an episode is open, a failed cycle sets \<open>current_downtime\<close> to the time since
  the start of the episode and leaves the episode as it is. After a successful cycle no
  episode is open and \<open>current_downtime\<close> is 0.
\<close>

theorem current_downtime_lags:
  assumes "m = snd (loop es (start t0 (init h i t f d)))"
  shows "(downtime_start m = None \<longrightarrow>
            current_downtime m = 0
            \<and> current_downtime (cycle (Failure error) sig now m) = 0
            \<and> downtime_start (cycle (Failure error) sig now m) = Some now
            \<and> ((ping_count m + 1) mod 10 = 0 \<longrightarrow>
                  last (stdout (cycle (Failure error) sig now m))
                    = Stats (success_count m) (ping_count m + 1)
                        (rate (success_count m) (ping_count m + 1))
                        (rtt_summary (recent_pings m)) (Some 0)))
    \<and> (\<forall>t1. downtime_start m = Some t1 \<longrightarrow>
            current_downtime (cycle (Failure error) sig now m) = total_seconds (now - t1)
            \<and> downtime_start (cycle (Failure error) sig now m) = Some t1)
    \<and> current_downtime (cycle (Success rtt) sig now m) = 0
    \<and> downtime_start (cycle (Success rtt) sig now m) = None"
proof -
  have inv: "downtime_start m = None \<longrightarrow> current_downtime m = 0"
    unfolding assms
    by (rule impI, rule loop_down_invariant) (simp_all add: start_init_fields)
  have "last (stdout (cycle (Failure error) sig now m))
          = Stats (success_count m) (ping_count m + 1)
              (rate (success_count m) (ping_count m + 1))
              (rtt_summary (recent_pings m)) (Some 0)"
    if "downtime_start m = None" and "(ping_count m + 1) mod 10 = 0"
    using that inv by (simp add: cycle_defs)
  with inv show ?thesis
    by (auto simp: cycle_current_downtime cycle_downtime_start split: option.splits)
qed

theorem current_downtime_lags_witness:
  "downtime_start (snd (loop short_run monitor0)) = None
   \<and> current_downtime (snd (loop short_run monitor0)) = 0
   \<and> current_downtime (cycle (Failure ''Ping timeout'') ''12%'' 61000000
        (snd (loop short_run monitor0))) = 0
   \<and> downtime_start (cycle (Failure ''Ping timeout'') ''12%'' 61000000
        (snd (loop short_run monitor0))) = Some 61000000
   \<and> downtime_start (snd (loop (take 3 short_run) monitor0)) = Some 25000000
   \<and> current_downtime (snd (loop (take 3 short_run) monitor0)) = 0
   \<and> current_downtime (cycle (Failure ''Ping timeout'') ''12%'' 40000000
        (snd (loop (take 3 short_run) monitor0))) = 15
   \<and> current_downtime (cycle (Success 25) ''87%'' 51000000
        (snd (loop (take 4 short_run) monitor0))) = 0
   \<and> downtime_start (snd (loop (take 9 long_run) monitor0)) = None
   \<and> (ping_count (snd (loop (take 9 long_run) monitor0)) + 1) mod 10 = 0
   \<and> last (stdout (cycle (Failure ''Ping timeout'') ''12%'' 5
        (snd (loop (take 9 long_run) monitor0))))
       = Stats 9 10 90 (Some (20, 20, 20)) (Some 0)"
proof -
  have a: "downtime_start (snd (loop short_run monitor0)) = None"
    by code_simp
  have b: "downtime_start (snd (loop (take 3 short_run) monitor0)) = Some 25000000"
    by code_simp
  have c: "current_downtime (snd (loop (take 3 short_run) monitor0)) = 0"
    by code_simp
  have d: "downtime_start (snd (loop (take 9 long_run) monitor0)) = None"
    "ping_count (snd (loop (take 9 long_run) monitor0)) = 9"
    "success_count (snd (loop (take 9 long_run) monitor0)) = 9"
    "rtt_summary (recent_pings (snd (loop (take 9 long_run) monitor0))) = Some (20, 20, 20)"
    by code_simp+
  from a b c d
    current_downtime_lags [of "snd (loop short_run monitor0)" short_run 0 "''8.8.8.8''" 10 5
      "''wwan0''" 0 "''Ping timeout''" "''12%''" 61000000 20]
    current_downtime_lags [of "snd (loop (take 3 short_run) monitor0)" "take 3 short_run" 0
      "''8.8.8.8''" 10 5 "''wwan0''" 0 "''Ping timeout''" "''12%''" 40000000 20]
    current_downtime_lags [of "snd (loop (take 4 short_run) monitor0)" "take 4 short_run" 0
      "''8.8.8.8''" 10 5 "''wwan0''" 0 "''Ping timeout''" "''87%''" 51000000 25]
    current_downtime_lags [of "snd (loop (take 9 long_run) monitor0)" "take 9 long_run" 0
      "''8.8.8.8''" 10 5 "''wwan0''" 0 "''Ping timeout''" "''12%''" 5 20]
  show ?thesis
    by (simp add: monitor0_def total_seconds_def rate_def)
qed

subsection \<open>The rates of the reports\<close>

text \<open>
  C5. The periodic report shows the success rate and the final report the success rate and
  the loss rate (its eighth and ninth lines). Each rate is \<open>count / ping_count * 100\<close> when
  \<open>ping_count > 0\<close> and 0 when \<open>ping_count = 0\<close>, and no division by zero is evaluated.
\<close>

theorem report_rates:
  assumes "print_final_stats now m = Some m'"
  shows "(ping_count m > 0 \<longrightarrow>
            stdout (print_stats m)
              = stdout m @ [Stats (success_count m) (ping_count m)
                              (of_int (success_count m) / of_int (ping_count m) * 100)
                              (rtt_summary (recent_pings m))
                              (if downtime_start m \<noteq> None then Some (current_downtime m) else None)]
            \<and> stdout m' ! (length (stdout m) + 7)
                = Success_rate (of_int (success_count m) / of_int (ping_count m) * 100)
            \<and> stdout m' ! (length (stdout m) + 8)
                = Loss_rate (of_int (failure_count m) / of_int (ping_count m) * 100))
    \<and> (ping_count m = 0 \<longrightarrow>
            stdout (print_stats m)
              = stdout m @ [Stats (success_count m) 0 0
                              (rtt_summary (recent_pings m))
                              (if downtime_start m \<noteq> None then Some (current_downtime m) else None)]
            \<and> stdout m' ! (length (stdout m) + 7) = Success_rate 0
            \<and> stdout m' ! (length (stdout m) + 8) = Loss_rate 0)"
  using assms
  by (auto simp: print_final_stats_def print_stats_def log_line_def final_report_def rate_def
      Let_def nth_append split: option.splits)

theorem report_rates_witness:
  "print_final_stats 60000000 (snd (loop short_run monitor0)) \<noteq> None
   \<and> ping_count (snd (loop short_run monitor0)) = 5
   \<and> stdout (the (print_final_stats 60000000 (snd (loop short_run monitor0))))
        ! (length (stdout (snd (loop short_run monitor0))) + 7) = Success_rate 60
   \<and> stdout (the (print_final_stats 60000000 (snd (loop short_run monitor0))))
        ! (length (stdout (snd (loop short_run monitor0))) + 8) = Loss_rate 40
   \<and> print_final_stats 0 monitor0 \<noteq> None
   \<and> ping_count monitor0 = 0
   \<and> stdout (the (print_final_stats 0 monitor0)) ! (length (stdout monitor0) + 7) = Success_rate 0
   \<and> stdout (the (print_final_stats 0 monitor0)) ! (length (stdout monitor0) + 8) = Loss_rate 0"
proof -
  have a0: "print_final_stats 60000000 (snd (loop short_run monitor0)) \<noteq> None"
    by code_simp
  then have a: "print_final_stats 60000000 (snd (loop short_run monitor0))
      = Some (the (print_final_stats 60000000 (snd (loop short_run monitor0))))"
    by simp
  have b0: "print_final_stats 0 monitor0 \<noteq> None"
    by code_simp
  then have b: "print_final_stats 0 monitor0 = Some (the (print_final_stats 0 monitor0))"
    by simp
  have c: "ping_count (snd (loop short_run monitor0)) = 5"
    "success_count (snd (loop short_run monitor0)) = 3"
    "failure_count (snd (loop short_run monitor0)) = 2"
    "ping_count monitor0 = 0"
    by code_simp+
  from report_rates [OF a] report_rates [OF b] a0 b0 c show ?thesis
    by simp
qed

subsection \<open>The latency that \<open>ping_host\<close> reports\<close>

text \<open>
  A line that contains \<open>time=\<close> always has a field after it: of the exceptions that the
  bare \<open>except\<close> catches, only the \<open>ValueError\<close> of \<open>float\<close> can occur.
\<close>

lemma split_from_nonempty: "split_from sep acc s \<noteq> []"
  by (induction sep acc s rule: split_from.induct) simp_all

lemma split_from_two:
  "sep \<noteq> [] \<Longrightarrow> contains s sep \<Longrightarrow> 2 \<le> length (split_from sep acc s)"
proof (induction sep acc s rule: split_from.induct)
  case (1 sep acc)
  then show ?case by simp
next
  case (2 sep acc c cs)
  show ?case
  proof (cases "startswith (c # cs) sep")
    case True
    with 2(3) split_from_nonempty [of sep "[]" "drop (length sep) (c # cs)"] show ?thesis
      by (cases "split_from sep [] (drop (length sep) (c # cs))") simp_all
  next
    case False
    with 2 show ?thesis by simp
  qed
qed

lemma rtt_field_defined: "contains l ''time='' \<Longrightarrow> rtt_field l \<noteq> None"
proof -
  assume "contains l ''time=''"
  then have "2 \<le> length (split l ''time='')"
    by (simp add: split_def split_from_two)
  then obtain a b rest where "split l ''time='' = a # b # rest"
    by (cases "split l ''time=''"; cases "tl (split l ''time='')") auto
  moreover have "split b '' '' \<noteq> []"
    by (simp add: split_def split_from_nonempty)
  ultimately show ?thesis
    by (simp add: rtt_field_def split: list.splits)
qed

lemma extract_rtt_None:
  "extract_rtt float ls = None \<longleftrightarrow>
     (\<forall>l \<in> set ls. contains l ''time='' \<longrightarrow>
        (\<forall>field. rtt_field l = Some field \<longrightarrow> float field = None))"
  by (induction ls) (auto split: option.splits)

text \<open>
  C7. When \<open>ping_host\<close> gets as far as running ping and ping exits with status 0, the
  result is a success. When moreover no line of the output that contains \<open>time=\<close> has a
  field after it that \<open>float\<close> accepts, the latency reported is the elapsed wall-clock
  time of the call, in milliseconds.
\<close>

theorem ping_host_fallback:
  assumes "subprocess_run env = Completed 0 out err"
    and "host_is_ip env \<or> fst (resolve_hostname env)"
  shows "(\<exists>rtt. ping_host float env = Success rtt)
    \<and> ((\<forall>l \<in> set (split out [CHR 0x0A]). contains l ''time='' \<longrightarrow>
           (\<forall>field. rtt_field l = Some field \<longrightarrow> float field = None))
        \<longrightarrow> ping_host float env = Success ((time_after env - time_before env) * 1000))"
  using assms extract_rtt_None [of float "split out [CHR 0x0A]"]
  by (auto simp: ping_host_def Let_def split: option.splits)

theorem ping_host_fallback_witness:
  "subprocess_run ping_env0 = Completed 0 no_rtt_output []
   \<and> host_is_ip ping_env0
   \<and> list_all (\<lambda>l. contains l ''time='' = (rtt_field l = Some ''n/a''))
        (split no_rtt_output [CHR 0x0A])
   \<and> float_14 ''n/a'' = None
   \<and> ping_host float_14 ping_env0 = Success 30"
proof -
  have a: "subprocess_run ping_env0 = Completed 0 no_rtt_output []" "host_is_ip ping_env0"
    by (simp_all add: ping_env0_def)
  have b: "list_all (\<lambda>l. contains l ''time='' = (rtt_field l = Some ''n/a''))
        (split no_rtt_output [CHR 0x0A])"
    by code_simp
  have c: "float_14 ''n/a'' = None"
    by (simp add: float_14_def)
  have d: "(time_after ping_env0 - time_before ping_env0) * 1000 = 30"
    by (simp add: ping_env0_def)
  from b c have "\<forall>l \<in> set (split no_rtt_output [CHR 0x0A]). contains l ''time='' \<longrightarrow>
           (\<forall>field. rtt_field l = Some field \<longrightarrow> float_14 field = None)"
    by (auto simp: list_all_iff)
  with ping_host_fallback [OF a(1), of float_14] a b c d show ?thesis
    by simp
qed




subsection \<open>The duration and the final report\<close>

lemma loop_end_time: "end_time (snd (loop es m)) = end_time m"
  by (induction es m rule: loop.induct)
    (simp_all add: log_line_def count_failure_def cycle_end_time)

lemma loop_start_time: "start_time (snd (loop es m)) = start_time m"
  by (induction es m rule: loop.induct)
    (simp_all add: log_line_def count_failure_def cycle_start_time)

lemma loop_never_expires: "end_time m = None \<Longrightarrow> fst (loop es m) \<noteq> Some Expired"
  by (induction es m rule: loop.induct) (simp_all add: expired_def cycle_end_time)

lemma loop_expired_head:
  "head_clock e = Some t \<Longrightarrow> expired m t \<Longrightarrow>
   loop (e # es) m = (Some Expired, log_line Duration_exceeded m)"
  by (cases e) simp_all

lemma in_time_cycle: "in_time (cycle r sig now m) = in_time m"
  by (rule ext) (simp add: in_time_def cycle_expired split: option.splits)

lemma loop_ping_count_le:
  "ping_count (snd (loop es m)) \<le> ping_count m + int (length (takeWhile (in_time m) es))"
proof (induction es m rule: loop.induct)
  case (5 t r signal now es m)
  show ?case
  proof (cases "expired m t")
    case True
    then show ?thesis
      by (simp add: log_line_def)
  next
    case False
    with 5 [OF False] show ?thesis
      by (simp add: in_time_cycle cycle_ping_count in_time_def)
  qed
qed (simp_all add: log_line_def count_failure_def in_time_def)

lemma cycle_no_final:
  "Final_statistics \<notin> set (stdout m) \<Longrightarrow> Final_statistics \<notin> set (stdout (cycle r sig now m))"
  by (simp add: cycle_defs split: probe_result.splits option.splits)

lemma loop_no_final:
  "Final_statistics \<notin> set (stdout m) \<Longrightarrow> Final_statistics \<notin> set (stdout (snd (loop es m)))"
  by (induction es m rule: loop.induct)
    (simp_all add: log_line_def count_failure_def cycle_no_final)

lemma final_report_stdout: "final_report el (m\<lparr>stdout := out\<rparr>) = final_report el m"
  by (simp add: final_report_def)

lemma final_report_once:
  "filter (\<lambda>l. l = Final_statistics) (final_report el m) = [Final_statistics]"
  by (auto simp: final_report_def Let_def filter_empty_conv split: option.splits)

lemma monitor_returns:
  assumes "fst (loop es (start t0 m)) = Some s"
  shows "\<exists>m'. monitor t0 es tf m = Returned s m'
     \<and> stdout m' = stdout (snd (loop es (start t0 m)))
         @ (case s of Interrupted \<Rightarrow> [Interrupted_by_user] | Expired \<Rightarrow> [])
         @ final_report (total_seconds (tf - t0)) m'"
proof -
  obtain m1 where l: "loop es (start t0 m) = (Some s, m1)"
    using assms by (cases "loop es (start t0 m)") simp
  have "start_time m1 = Some t0"
    using loop_start_time [of es "start t0 m"] l by (simp add: start_def Let_def)
  with l show ?thesis
    by (cases s)
      (simp_all add: monitor_def print_final_stats_def log_line_def final_report_stdout)
qed

text \<open>
  C8. Let \<open>m0\<close> be a monitor that has just been started, with duration \<open>d\<close>, at time
  \<open>t0\<close>. Its \<open>end_time\<close> is \<open>t0\<close> plus \<open>d\<close> minutes when \<open>d\<close> is not 0 and is not set
  when \<open>d\<close> is 0, and then the loop never stops for its duration. A pass whose duration
  check reads a clock at or after the end time stops the loop there: nothing but the line
  that says so is done, so no probe is started; and the probes of a run are at most as
  many as its leading passes that read a clock before the end time. Whenever the loop
  stops, for the duration or for an interrupt, \<open>monitor\<close> returns, the last thing it has
  written is the final report, and it has written it once.
\<close>

theorem duration_and_final_report:
  assumes "m0 = start t0 (init h i t f d)"
  shows "end_time m0 = (if d \<noteq> 0 then Some (t0 + minutes d) else None)
    \<and> (d = 0 \<longrightarrow> fst (loop es m0) \<noteq> Some Expired)
    \<and> (head_clock e = Some t1 \<and> (\<exists>te. end_time m = Some te \<and> te \<le> t1) \<longrightarrow>
         loop (e # es') m = (Some Expired, log_line Duration_exceeded m))
    \<and> ping_count (snd (loop es m0)) \<le> int (length (takeWhile (in_time m0) es))
    \<and> (\<forall>s. fst (loop es m0) = Some s \<longrightarrow>
         (\<exists>m'. monitor t0 es tf (init h i t f d) = Returned s m'
            \<and> stdout m' = stdout (snd (loop es m0))
                @ (case s of Interrupted \<Rightarrow> [Interrupted_by_user] | Expired \<Rightarrow> [])
                @ final_report (total_seconds (tf - t0)) m'
            \<and> length (filter (\<lambda>l. l = Final_statistics) (stdout m')) = 1))"
proof -
  have 1: "end_time m0 = (if d \<noteq> 0 then Some (t0 + minutes d) else None)"
    unfolding assms by (simp add: start_def init_def Let_def)
  have 2: "d = 0 \<longrightarrow> fst (loop es m0) \<noteq> Some Expired"
    using 1 loop_never_expires [of m0 es] by simp
  have 3: "head_clock e = Some t1 \<and> (\<exists>te. end_time m = Some te \<and> te \<le> t1) \<longrightarrow>
         loop (e # es') m = (Some Expired, log_line Duration_exceeded m)"
    using loop_expired_head [of e t1 m es'] by (auto simp: expired_def)
  have 4: "ping_count (snd (loop es m0)) \<le> int (length (takeWhile (in_time m0) es))"
    using loop_ping_count_le [of es m0] unfolding assms by (simp add: start_init_fields)
  have nf: "Final_statistics \<notin> set (stdout (snd (loop es m0)))"
    unfolding assms by (rule loop_no_final) (simp add: start_init_fields)
  have 5: "\<exists>m'. monitor t0 es tf (init h i t f d) = Returned s m'
            \<and> stdout m' = stdout (snd (loop es m0))
                @ (case s of Interrupted \<Rightarrow> [Interrupted_by_user] | Expired \<Rightarrow> [])
                @ final_report (total_seconds (tf - t0)) m'
            \<and> length (filter (\<lambda>l. l = Final_statistics) (stdout m')) = 1"
    if "fst (loop es m0) = Some s" for s
  proof -
    from that monitor_returns [of es t0 "init h i t f d" s tf]
    obtain m' where m': "monitor t0 es tf (init h i t f d) = Returned s m'"
      "stdout m' = stdout (snd (loop es m0))
         @ (case s of Interrupted \<Rightarrow> [Interrupted_by_user] | Expired \<Rightarrow> [])
         @ final_report (total_seconds (tf - t0)) m'"
      unfolding assms by blast
    from nf have "filter (\<lambda>l. l = Final_statistics) (stdout (snd (loop es m0))) = []"
      by (auto simp: filter_empty_conv)
    then have "length (filter (\<lambda>l. l = Final_statistics) (stdout m')) = 1"
      by (subst m'(2)) (simp add: final_report_once split: stop.splits)
    with m' show ?thesis
      by blast
  qed
  from 1 2 3 4 5 show ?thesis
    by blast
qed

theorem duration_and_final_report_witness:
  "end_time (start 0 monitor1) = Some 60000000
   \<and> fst (loop expiring_run (start 0 monitor1)) = Some Expired
   \<and> ping_count (snd (loop expiring_run (start 0 monitor1))) \<le> 2
   \<and> loop (drop 2 expiring_run) (start 0 monitor1)
       = (Some Expired, log_line Duration_exceeded (start 0 monitor1))
   \<and> (\<exists>m'. monitor 0 expiring_run 60000001 monitor1 = Returned Expired m'
         \<and> length (filter (\<lambda>l. l = Final_statistics) (stdout m')) = 1)
   \<and> fst (loop interrupted_run monitor0) = Some Interrupted
   \<and> (\<exists>m'. monitor 0 interrupted_run 80000000 (init ''8.8.8.8'' 10 5 ''wwan0'' 0)
               = Returned Interrupted m'
         \<and> length (filter (\<lambda>l. l = Final_statistics) (stdout m')) = 1)"
proof -
  have a: "fst (loop expiring_run (start 0 monitor1)) = Some Expired"
    by code_simp
  have b: "length (takeWhile (in_time (start 0 monitor1)) expiring_run) = 2"
    by code_simp
  have c: "drop 2 expiring_run
      = Cycle 60000000 (Success 21) ''87%'' 61000000 # [Cycle 70000000 (Success 22) ''87%'' 71000000]"
    by (simp add: expiring_run_def)
  have d: "fst (loop interrupted_run monitor0) = Some Interrupted"
    by code_simp
  have e: "end_time (start 0 monitor1) = Some 60000000"
    by (simp add: start_def monitor1_def init_def minutes_def)
  note t1 = duration_and_final_report
    [where ?m0.0 = "start 0 monitor1" and ?t0.0 = 0 and h = "''8.8.8.8''" and i = 10 and t = 5
      and f = "''wwan0''" and d = 1 and es = expiring_run
      and e = "Cycle 60000000 (Success 21) ''87%'' 61000000" and ?t1.0 = 60000000
      and m = "start 0 monitor1" and es' = "[Cycle 70000000 (Success 22) ''87%'' 71000000]"
      and tf = 60000001, folded monitor1_def, OF refl]
  note t2 = duration_and_final_report
    [where ?m0.0 = monitor0 and ?t0.0 = 0 and h = "''8.8.8.8''" and i = 10 and t = 5
      and f = "''wwan0''" and d = 0 and es = interrupted_run and tf = 80000000,
      OF monitor0_def]
  from t1 a have 1: "\<exists>m'. monitor 0 expiring_run 60000001 monitor1 = Returned Expired m'
         \<and> length (filter (\<lambda>l. l = Final_statistics) (stdout m')) = 1"
    by blast
  from t2 d have 2: "\<exists>m'. monitor 0 interrupted_run 80000000 (init ''8.8.8.8'' 10 5 ''wwan0'' 0)
               = Returned Interrupted m'
         \<and> length (filter (\<lambda>l. l = Final_statistics) (stdout m')) = 1"
    by blast
  from t1 b have 3: "ping_count (snd (loop expiring_run (start 0 monitor1))) \<le> 2"
    by simp
  from t1 e have 4: "loop (drop 2 expiring_run) (start 0 monitor1)
       = (Some Expired, log_line Duration_exceeded (start 0 monitor1))"
    unfolding c by simp
  from a d e 1 2 3 4 show ?thesis
    by blast
qed




subsection \<open>The failure breakdown\<close>

lemma remdups_snoc: "remdups (ys @ [x]) = filter (\<lambda>y. y \<noteq> x) (remdups ys) @ [x]"
  by (induction ys) auto

lemma first_seen_Nil: "first_seen [] = []"
  by (simp add: first_seen_def)

lemma first_seen_Cons: "first_seen (x # xs) = x # filter (\<lambda>y. y \<noteq> x) (first_seen xs)"
  by (simp add: first_seen_def remdups_snoc rev_filter)

lemma set_first_seen: "set (first_seen xs) = set xs"
  by (simp add: first_seen_def)

lemma distinct_first_seen: "distinct (first_seen xs)"
  by (simp add: first_seen_def)

lemma count_failures_foldl: "count_failures fs = foldl tally [] fs"
  by (simp add: count_failures_def)

lemma keys_tally:
  "map fst (tally d x) = (if x \<in> set (map fst d) then map fst d else map fst d @ [x])"
  by (simp add: tally_def update_keys)

lemma keys_foldl_tally:
  "map fst (foldl tally d fs)
     = map fst d @ filter (\<lambda>k. k \<notin> set (map fst d)) (first_seen fs)"
proof (induction fs arbitrary: d)
  case Nil
  then show ?case by (simp add: first_seen_Nil)
next
  case (Cons x fs)
  show ?case
  proof (cases "x \<in> set (map fst d)")
    case True
    then have "filter (\<lambda>k. k \<notin> set (map fst d)) (filter (\<lambda>y. y \<noteq> x) (first_seen fs))
        = filter (\<lambda>k. k \<notin> set (map fst d)) (first_seen fs)"
      by (auto intro: filter_cong)
    with True show ?thesis
      by (simp add: Cons.IH keys_tally first_seen_Cons)
  next
    case False
    have "filter (\<lambda>k. k \<notin> set (map fst d @ [x])) (first_seen fs)
        = filter (\<lambda>k. k \<notin> set (map fst d)) (filter (\<lambda>y. y \<noteq> x) (first_seen fs))"
      by (auto intro: filter_cong)
    with False show ?thesis
      by (simp add: Cons.IH keys_tally first_seen_Cons)
  qed
qed

lemma map_of_foldl_tally:
  "map_of (foldl tally d fs) k
     = (if k \<in> set fs then Some (dict_get d k 0 + int (count_list fs k)) else map_of d k)"
proof (induction fs arbitrary: d)
  case Nil
  then show ?case by simp
next
  case (Cons x fs)
  show ?case
    by (simp add: Cons.IH) (auto simp: tally_def update_conv' dict_get_def count_list_0_iff)
qed

lemma keys_count_failures: "map fst (count_failures fs) = first_seen fs"
  by (simp add: count_failures_foldl keys_foldl_tally)

lemma count_failures_closed_form:
  "count_failures fs = map (\<lambda>k. (k, int (count_list fs k))) (first_seen fs)"
proof -
  have d: "distinct (map fst (count_failures fs))"
    by (simp add: keys_count_failures distinct_first_seen)
  have "snd p = int (count_list fs (fst p))" if "p \<in> set (count_failures fs)" for p
  proof -
    from that have "fst p \<in> set fs"
      using keys_count_failures [of fs] set_first_seen [of fs]
      by (metis image_eqI list.set_map)
    moreover from that d have "map_of (count_failures fs) (fst p) = Some (snd p)"
      by simp
    ultimately show ?thesis
      by (simp add: count_failures_foldl map_of_foldl_tally dict_get_def)
  qed
  then have "count_failures fs = map (\<lambda>p. (fst p, int (count_list fs (fst p)))) (count_failures fs)"
    by (simp add: map_idI prod_eq_iff)
  also have "\<dots> = map (\<lambda>k. (k, int (count_list fs k))) (map fst (count_failures fs))"
    by simp
  finally show ?thesis
    by (simp add: keys_count_failures)
qed

lemma set_sorted_reverse: "set (sorted_reverse k xs) = set xs"
  by (simp add: sorted_reverse_def)

lemma sorted_reverse_descending: "sorted_wrt (\<lambda>a b. a \<ge> b) (map k (sorted_reverse k xs))"
proof -
  have "sorted (rev (map k (sorted_reverse k xs)))"
    by (simp add: sorted_reverse_def rev_map)
  then show ?thesis
    by (simp add: sorted_wrt_rev)
qed

lemma sorted_reverse_stable:
  "filter (\<lambda>y. k y = c) (sorted_reverse k xs) = filter (\<lambda>y. k y = c) xs"
  by (simp add: sorted_reverse_def sort_key_stable flip: rev_filter)

lemma distinct_map_sorted_reverse:
  "distinct (map f xs) \<Longrightarrow> distinct (map f (sorted_reverse k xs))"
  by (simp add: sorted_reverse_def distinct_map)

lemma the_breakdown_append: "the_breakdown (xs @ ys) = the_breakdown xs @ the_breakdown ys"
  by (simp add: the_breakdown_def)

lemma the_breakdown_Nil: "the_breakdown [] = []"
  by (simp add: the_breakdown_def)

lemma the_breakdown_Cons:
  "the_breakdown (l # ls)
     = (case l of Breakdown_item failure_type count \<Rightarrow> l # the_breakdown ls
        | _ \<Rightarrow> the_breakdown ls)"
  by (simp add: the_breakdown_def split: line.splits)

lemma the_breakdown_items:
  "the_breakdown (map (\<lambda>(failure_type, count). Breakdown_item failure_type count) bd)
     = map (\<lambda>(failure_type, count). Breakdown_item failure_type count) bd"
  by (induction bd) (auto simp: the_breakdown_def)

lemma the_breakdown_final_report:
  "the_breakdown (final_report el m)
     = (if failure_count m > 0 \<and> recent_failures m \<noteq> []
        then map (\<lambda>(failure_type, count). Breakdown_item failure_type count)
               (failure_breakdown (recent_failures m))
        else [])"
  by (simp add: final_report_def Let_def the_breakdown_append the_breakdown_items
      the_breakdown_Cons the_breakdown_Nil split: option.splits prod.splits)

lemma the_breakdown_log_line:
  "the_breakdown (stdout (log_line l m))
     = the_breakdown (stdout m) @ the_breakdown [l]"
  by (simp add: log_line_def the_breakdown_append)

lemma the_breakdown_cycle: "the_breakdown (stdout (cycle r sig now m)) = the_breakdown (stdout m)"
  by (simp add: cycle_defs the_breakdown_append the_breakdown_Cons the_breakdown_Nil
      split: probe_result.splits option.splits)

lemma the_breakdown_loop: "the_breakdown (stdout (snd (loop es m))) = the_breakdown (stdout m)"
  by (induction es m rule: loop.induct)
    (simp_all add: the_breakdown_cycle the_breakdown_log_line count_failure_def
      the_breakdown_Cons the_breakdown_Nil)

lemma the_breakdown_monitor:
  assumes "monitor t0 es tf (init h i t f d) = Returned s m"
    and "fs = most_recent maxlen (failure_reasons (start t0 (init h i t f d)) es)"
  shows "the_breakdown (stdout m)
     = (if fs \<noteq> [] then map (\<lambda>(failure_type, count). Breakdown_item failure_type count)
                          (failure_breakdown fs)
        else [])"
proof -
  let ?m0 = "start t0 (init h i t f d)"
  from assms(1) have st: "fst (loop es ?m0) = Some s"
    by (auto simp: monitor_def Let_def split: prod.splits option.splits)
  from monitor_returns [OF st, of tf] assms(1)
  have out: "stdout m = stdout (snd (loop es ?m0))
         @ (case s of Interrupted \<Rightarrow> [Interrupted_by_user] | Expired \<Rightarrow> [])
         @ final_report (total_seconds (tf - t0)) m"
    by simp
  have f: "recent_failures m = fs" "failure_count m = int (length (failure_reasons ?m0 es))"
    using assms
    by (auto simp: monitor_def print_final_stats_def log_line_def Let_def
        run_recent_failures [symmetric] run_failure_count [symmetric]
        split: prod.splits option.splits stop.splits)
  have "fs \<noteq> [] \<longleftrightarrow> failure_reasons ?m0 es \<noteq> []"
    unfolding assms(2)
    by (cases "failure_reasons ?m0 es") (simp_all add: most_recent_def maxlen_def)
  with f have g: "failure_count m > 0 \<and> recent_failures m \<noteq> [] \<longleftrightarrow> fs \<noteq> []"
    by auto
  have "the_breakdown (stdout m) = the_breakdown (final_report (total_seconds (tf - t0)) m)"
    by (subst out)
      (simp add: the_breakdown_append the_breakdown_loop start_init_fields
        the_breakdown_Cons the_breakdown_Nil split: stop.splits)
  with f g show ?thesis
    by (simp add: the_breakdown_final_report)
qed

lemma final_report_tail:
  assumes "failure_count m > 0" and "recent_failures m \<noteq> []"
  shows "\<exists>pre. final_report el m
           = pre @ Failure_breakdown
               # map (\<lambda>(failure_type, count). Breakdown_item failure_type count)
                   (failure_breakdown (recent_failures m))
               @ [Rule]"
proof -
  let ?head = "[Blank, Rule, Final_statistics, Rule,
          Total_pings (ping_count m), Successful (success_count m), Failed (failure_count m),
          Success_rate (rate (success_count m) (ping_count m)),
          Loss_rate (rate (failure_count m) (ping_count m)), Total_time el]
         @ (case rtt_summary (recent_pings m) of
              None \<Rightarrow> []
            | Some (avg_rtt, min_rtt, max_rtt) \<Rightarrow> [Rtt avg_rtt min_rtt max_rtt])
         @ [Total_downtime (downtime_duration m), Max_downtime_episode (max_downtime m),
               Cumulative_losses (failure_count m)]"
  from assms have "final_report el m
           = ?head @ Failure_breakdown
               # map (\<lambda>(failure_type, count). Breakdown_item failure_type count)
                   (failure_breakdown (recent_failures m))
               @ [Rule]"
    by (simp add: final_report_def Let_def)
  then show ?thesis
    by (rule exI)
qed

lemma monitor_breakdown_last:
  assumes "monitor t0 es tf (init h i t f d) = Returned s m"
    and "failure_reasons (start t0 (init h i t f d)) es \<noteq> []"
  shows "\<exists>pre. stdout m
           = pre @ Failure_breakdown
               # map (\<lambda>(failure_type, count). Breakdown_item failure_type count)
                   (failure_breakdown
                      (most_recent maxlen (failure_reasons (start t0 (init h i t f d)) es)))
               @ [Rule]"
proof -
  let ?m0 = "start t0 (init h i t f d)"
  let ?fs = "most_recent maxlen (failure_reasons ?m0 es)"
  from assms(1) have st: "fst (loop es ?m0) = Some s"
    by (auto simp: monitor_def Let_def split: prod.splits option.splits)
  from monitor_returns [OF st, of tf] assms(1)
  have out: "stdout m = stdout (snd (loop es ?m0))
         @ (case s of Interrupted \<Rightarrow> [Interrupted_by_user] | Expired \<Rightarrow> [])
         @ final_report (total_seconds (tf - t0)) m"
    by simp
  have f: "recent_failures m = ?fs" "failure_count m = int (length (failure_reasons ?m0 es))"
    using assms(1)
    by (auto simp: monitor_def print_final_stats_def log_line_def Let_def
        run_recent_failures [symmetric] run_failure_count [symmetric]
        split: prod.splits option.splits stop.splits)
  have "?fs \<noteq> []"
    using assms(2)
    by (cases "failure_reasons ?m0 es") (simp_all add: most_recent_def maxlen_def)
  with f assms(2) have "failure_count m > 0" "recent_failures m \<noteq> []"
    by simp_all
  from final_report_tail [OF this, of "total_seconds (tf - t0)"] obtain pre
    where "final_report (total_seconds (tf - t0)) m
           = pre @ Failure_breakdown
               # map (\<lambda>(failure_type, count). Breakdown_item failure_type count)
                   (failure_breakdown (recent_failures m))
               @ [Rule]"
    by blast
  with out f(1) have "stdout m
      = (stdout (snd (loop es ?m0))
         @ (case s of Interrupted \<Rightarrow> [Interrupted_by_user] | Expired \<Rightarrow> []) @ pre)
        @ Failure_breakdown
               # map (\<lambda>(failure_type, count). Breakdown_item failure_type count)
                   (failure_breakdown ?fs)
               @ [Rule]"
    by simp
  then show ?thesis
    by (rule exI)
qed

lemma failure_breakdown_ties:
  "map fst (filter (\<lambda>p. snd p = c) (failure_breakdown fs))
     = filter (\<lambda>r. int (count_list fs r) = c) (first_seen fs)"
  by (simp add: failure_breakdown_def sorted_reverse_stable count_failures_closed_form
      filter_map comp_def)

text \<open>
  C6, as the code has it. Let \<open>monitor\<close> have returned and at least one probe of the run
  have failed; let \<open>fs\<close> be the reasons of the (at most) 100 most recent failed probes,
  oldest first. The output ends with the header of the breakdown, one line for every entry
  of \<open>failure_breakdown fs\<close>, in its order, and the closing rule of the final report; and
  these are all the breakdown lines of the output. That list names every reason of \<open>fs\<close>
  once, each with the number of its occurrences in \<open>fs\<close>; the counts never increase
  along the list; and the reasons with the same count stand in the order of their first
  occurrence in \<open>fs\<close>.
\<close>

theorem breakdown_of_recent_failures:
  assumes "monitor t0 es tf (init h i t f d) = Returned s m"
    and "failure_reasons (start t0 (init h i t f d)) es \<noteq> []"
    and "fs = most_recent 100 (failure_reasons (start t0 (init h i t f d)) es)"
    and "bd = failure_breakdown fs"
  shows "(\<exists>pre. stdout m
            = pre @ Failure_breakdown
                # map (\<lambda>(failure_type, count). Breakdown_item failure_type count) bd
                @ [Rule])
    \<and> the_breakdown (stdout m)
        = map (\<lambda>(failure_type, count). Breakdown_item failure_type count) bd
    \<and> distinct (map fst bd) \<and> set (map fst bd) = set fs
    \<and> (\<forall>p \<in> set bd. snd p = int (count_list fs (fst p)))
    \<and> sorted_wrt (\<lambda>a b. a \<ge> b) (map snd bd)
    \<and> (\<forall>c. map fst (filter (\<lambda>p. snd p = c) bd)
              = filter (\<lambda>r. int (count_list fs r) = c) (first_seen fs))"
proof -
  have ne: "fs \<noteq> []"
    unfolding assms(3) using assms(2)
    by (cases "failure_reasons (start t0 (init h i t f d)) es")
      (simp_all add: most_recent_def)
  have 0: "\<exists>pre. stdout m
            = pre @ Failure_breakdown
                # map (\<lambda>(failure_type, count). Breakdown_item failure_type count) bd
                @ [Rule]"
    using monitor_breakdown_last [OF assms(1,2)] unfolding assms(3,4)
    by (simp add: maxlen_def)
  have 1: "the_breakdown (stdout m)
        = map (\<lambda>(failure_type, count). Breakdown_item failure_type count) bd"
    using the_breakdown_monitor [OF assms(1) refl] ne unfolding assms(3,4)
    by (simp add: maxlen_def)
  have set_bd: "set bd = set (count_failures fs)"
    unfolding assms(4) by (simp add: failure_breakdown_def set_sorted_reverse)
  have 2: "distinct (map fst bd)"
    unfolding assms(4) failure_breakdown_def
    by (rule distinct_map_sorted_reverse) (simp add: keys_count_failures distinct_first_seen)
  have 3: "set (map fst bd) = set fs"
    using set_bd keys_count_failures [of fs] set_first_seen [of fs]
    by (metis set_map)
  have 4: "\<forall>p \<in> set bd. snd p = int (count_list fs (fst p))"
    unfolding set_bd by (subst count_failures_closed_form) auto
  have 5: "sorted_wrt (\<lambda>a b. a \<ge> b) (map snd bd)"
    unfolding assms(4) failure_breakdown_def by (rule sorted_reverse_descending)
  have 6: "\<forall>c. map fst (filter (\<lambda>p. snd p = c) bd)
              = filter (\<lambda>r. int (count_list fs r) = c) (first_seen fs)"
    unfolding assms(4) by (simp add: failure_breakdown_ties)
  from 0 1 2 3 4 5 6 show ?thesis
    by blast
qed

theorem breakdown_of_recent_failures_witness:
  "state_of (monitor 0 mixed_run 12 (init ''8.8.8.8'' 10 5 ''wwan0'' 0)) \<noteq> None
   \<and> failure_reasons monitor0 mixed_run
       = [''Ping timeout'', ''Ping failed'', ''Ping failed'',
          ''DNS resolution failed: timed out'', ''Ping timeout'']
   \<and> the_breakdown
        (stdout (the (state_of (monitor 0 mixed_run 12 (init ''8.8.8.8'' 10 5 ''wwan0'' 0)))))
       = [Breakdown_item ''Ping timeout'' 2, Breakdown_item ''Ping failed'' 2,
          Breakdown_item ''DNS resolution failed: timed out'' 1]"
proof -
  have a: "monitor 0 mixed_run 12 (init ''8.8.8.8'' 10 5 ''wwan0'' 0)
      = Returned Interrupted
          (the (state_of (monitor 0 mixed_run 12 (init ''8.8.8.8'' 10 5 ''wwan0'' 0))))"
    by code_simp
  have b: "failure_reasons monitor0 mixed_run
       = [''Ping timeout'', ''Ping failed'', ''Ping failed'',
          ''DNS resolution failed: timed out'', ''Ping timeout'']"
    by code_simp
  have c: "failure_breakdown (most_recent 100 (failure_reasons monitor0 mixed_run))
      = [(''Ping timeout'', 2), (''Ping failed'', 2), (''DNS resolution failed: timed out'', 1)]"
    by code_simp
  have d: "state_of (monitor 0 mixed_run 12 (init ''8.8.8.8'' 10 5 ''wwan0'' 0)) \<noteq> None"
    by code_simp
  from breakdown_of_recent_failures [OF a _ refl refl] b c d show ?thesis
    by (simp add: monitor0_def)
qed

text \<open>
  C6, as the specification has it, fails on a run with more than 100 failed probes: the
  breakdown is counted over \<open>recent_failures\<close>, which holds the 100 most recent reasons
  only. Here the first probe of the run timed out, and the final report has no line for
  that reason.
\<close>

theorem breakdown_of_whole_run_counterexample:
  "''Ping timeout'' \<in> set (failure_reasons monitor0 lossy_run)
   \<and> the_breakdown
        (stdout (the (state_of (monitor 0 lossy_run 5 (init ''8.8.8.8'' 10 5 ''wwan0'' 0)))))
       = [Breakdown_item ''Ping failed'' 100]"
  by code_simp

end
